theory Spec2Isabelle
  imports Complex_Main "HOL-Library.Log_Nat"
begin

section \<open>Numbers of the Python run time\<close>

text \<open>
  The engine in \<^verbatim>\<open>utils.py\<close> is arithmetic on Python numbers. A Python \<^verbatim>\<open>int\<close> is an
  unbounded integer; a Python \<^verbatim>\<open>float\<close> is an IEEE 754 binary64 number. A finite
  binary64 number is given here by its value, a rational; the two zeros are one value
  (Python's \<^verbatim>\<open>==\<close> does not tell them apart, and no division by zero returns).
\<close>

datatype double = Finite rat | PosInf | NegInf | NaN

text \<open>\<open>ilog2 a\<close> is \<open>\<lfloor>log\<^sub>2 a\<rfloor>\<close> for a positive rational \<open>a\<close>.\<close>

definition ilog2 :: "rat \<Rightarrow> int" where
  "ilog2 a = (if 1 \<le> a then bitlen \<lfloor>a\<rfloor> - 1 else - bitlen (\<lceil>1 / a\<rceil> - 1))"

definition round_half_even :: "rat \<Rightarrow> int" where
  "round_half_even r =
     (let f = \<lfloor>r\<rfloor>; d = r - of_int f
      in if d < 1 / 2 then f
         else if 1 / 2 < d then f + 1
         else if even f then f else f + 1)"

text \<open>
  Rounding to nearest, ties to even, with 53 significant bits, a least exponent of
  \<open>-1022\<close> (below it the spacing stays \<open>2\<^sup>-\<^sup>1\<^sup>0\<^sup>7\<^sup>4\<close>: subnormal numbers) and overflow to
  an infinity from \<open>2\<^sup>1\<^sup>0\<^sup>2\<^sup>4\<close> on.
\<close>

definition ulp_of :: "rat \<Rightarrow> rat" where
  "ulp_of q = 2 powi (max (ilog2 \<bar>q\<bar>) (- 1022) - 52)"

definition round64 :: "rat \<Rightarrow> double" where
  "round64 q =
     (if q = 0 then Finite 0
      else let r = of_int (round_half_even (q / ulp_of q)) * ulp_of q
           in if 2 ^ 1024 \<le> \<bar>r\<bar> then (if 0 < q then PosInf else NegInf) else Finite r)"

subsection \<open>IEEE 754 arithmetic\<close>

fun dneg :: "double \<Rightarrow> double" where
  "dneg (Finite x) = Finite (- x)"
| "dneg PosInf = NegInf"
| "dneg NegInf = PosInf"
| "dneg NaN = NaN"

fun dadd :: "double \<Rightarrow> double \<Rightarrow> double" where
  "dadd (Finite x) (Finite y) = round64 (x + y)"
| "dadd NaN _ = NaN"
| "dadd _ NaN = NaN"
| "dadd PosInf NegInf = NaN"
| "dadd NegInf PosInf = NaN"
| "dadd PosInf _ = PosInf"
| "dadd NegInf _ = NegInf"
| "dadd _ PosInf = PosInf"
| "dadd _ NegInf = NegInf"

definition dsub :: "double \<Rightarrow> double \<Rightarrow> double" where
  "dsub a b = dadd a (dneg b)"

text \<open>The sign of an infinite product: an infinity of the sign of \<open>s\<close>, invalid at zero.\<close>

definition inf_signed :: "rat \<Rightarrow> double" where
  "inf_signed s = (if s = 0 then NaN else if 0 < s then PosInf else NegInf)"

fun dmul :: "double \<Rightarrow> double \<Rightarrow> double" where
  "dmul (Finite x) (Finite y) = round64 (x * y)"
| "dmul NaN _ = NaN"
| "dmul _ NaN = NaN"
| "dmul PosInf (Finite y) = inf_signed y"
| "dmul NegInf (Finite y) = inf_signed (- y)"
| "dmul (Finite x) PosInf = inf_signed x"
| "dmul (Finite x) NegInf = inf_signed (- x)"
| "dmul PosInf PosInf = PosInf"
| "dmul NegInf NegInf = PosInf"
| "dmul PosInf NegInf = NegInf"
| "dmul NegInf PosInf = NegInf"

text \<open>
  Division. A zero divisor counts as the positive zero; no call below divides by zero
  (Python raises before it would, and NumPy's \<^verbatim>\<open>linspace\<close> divides by a positive count).
\<close>

fun ddiv :: "double \<Rightarrow> double \<Rightarrow> double" where
  "ddiv (Finite x) (Finite y) = (if y = 0 then inf_signed x else round64 (x / y))"
| "ddiv NaN _ = NaN"
| "ddiv _ NaN = NaN"
| "ddiv (Finite x) PosInf = Finite 0"
| "ddiv (Finite x) NegInf = Finite 0"
| "ddiv PosInf (Finite y) = (if 0 \<le> y then PosInf else NegInf)"
| "ddiv NegInf (Finite y) = (if 0 \<le> y then NegInf else PosInf)"
| "ddiv _ _ = NaN"

subsection \<open>Python's \<^verbatim>\<open>int\<close> and \<^verbatim>\<open>float\<close> under \<^verbatim>\<open>+\<close>, \<^verbatim>\<open>-\<close>, \<^verbatim>\<open>*\<close>, \<^verbatim>\<open>/\<close>\<close>

datatype pynum = PyInt int | PyFloat double

datatype py_error = KeyError | ZeroDivisionError | OverflowError | ValueError | TypeError

type_synonym 'a result = "py_error + 'a"

definition bind_res :: "'a result \<Rightarrow> ('a \<Rightarrow> 'b result) \<Rightarrow> 'b result" where
  "bind_res m f = (case m of Inl e \<Rightarrow> Inl e | Inr v \<Rightarrow> f v)"

text \<open>
  \<^verbatim>\<open>float(i)\<close> for an \<^verbatim>\<open>int\<close>: the nearest double, \<^verbatim>\<open>OverflowError\<close> when there is
  none (\<^verbatim>\<open>int too large to convert to float\<close>).
\<close>

definition int_to_float :: "int \<Rightarrow> double result" where
  "int_to_float i =
     (case round64 (of_int i) of Finite r \<Rightarrow> Inr (Finite r) | _ \<Rightarrow> Inl OverflowError)"

fun as_float :: "pynum \<Rightarrow> double result" where
  "as_float (PyInt i) = int_to_float i"
| "as_float (PyFloat d) = Inr d"

text \<open>
  Two \<^verbatim>\<open>int\<close>s stay \<^verbatim>\<open>int\<close> under \<^verbatim>\<open>+\<close>, \<^verbatim>\<open>-\<close>, \<^verbatim>\<open>*\<close>; with a \<^verbatim>\<open>float\<close> on either side
  the \<^verbatim>\<open>int\<close> is converted first.
\<close>

fun py_add :: "pynum \<Rightarrow> pynum \<Rightarrow> pynum result" where
  "py_add (PyInt a) (PyInt b) = Inr (PyInt (a + b))"
| "py_add a b =
     bind_res (as_float a) (\<lambda>x. bind_res (as_float b) (\<lambda>y. Inr (PyFloat (dadd x y))))"

fun py_sub :: "pynum \<Rightarrow> pynum \<Rightarrow> pynum result" where
  "py_sub (PyInt a) (PyInt b) = Inr (PyInt (a - b))"
| "py_sub a b =
     bind_res (as_float a) (\<lambda>x. bind_res (as_float b) (\<lambda>y. Inr (PyFloat (dsub x y))))"

fun py_mul :: "pynum \<Rightarrow> pynum \<Rightarrow> pynum result" where
  "py_mul (PyInt a) (PyInt b) = Inr (PyInt (a * b))"
| "py_mul a b =
     bind_res (as_float a) (\<lambda>x. bind_res (as_float b) (\<lambda>y. Inr (PyFloat (dmul x y))))"

text \<open>
  True division. \<^verbatim>\<open>int / int\<close> is the correctly rounded quotient of the integers
  (\<^verbatim>\<open>OverflowError\<close> when it is too large for a float); otherwise both sides are floats.
  A zero divisor raises \<^verbatim>\<open>ZeroDivisionError\<close> in either case.
\<close>

fun py_div :: "pynum \<Rightarrow> pynum \<Rightarrow> pynum result" where
  "py_div (PyInt a) (PyInt b) =
     (if b = 0 then Inl ZeroDivisionError
      else case round64 (of_int a / of_int b) of
             Finite r \<Rightarrow> Inr (PyFloat (Finite r))
           | _ \<Rightarrow> Inl OverflowError)"
| "py_div a b =
     bind_res (as_float a) (\<lambda>x. bind_res (as_float b) (\<lambda>y.
       if y = Finite 0 then Inl ZeroDivisionError else Inr (PyFloat (ddiv x y))))"

text \<open>A float literal of the source denotes the double nearest to its decimal value.\<close>

definition float_lit :: "rat \<Rightarrow> pynum" where
  "float_lit q = PyFloat (round64 q)"

section \<open>The valuation engine (\<^verbatim>\<open>utils.py\<close>)\<close>

text \<open>
  Each function returns \<open>Inr\<close> of its result or \<open>Inl\<close> of the exception that the first
  failing operation raises; the operations run in the order in which Python evaluates
  them. The dictionaries returned have fixed keys and are records here.
\<close>

subsection \<open>\<^verbatim>\<open>calculate_total_cost\<close>\<close>

definition base_costs_aed :: "string \<rightharpoonup> int" where
  "base_costs_aed = [''basic'' \<mapsto> 300, ''medium'' \<mapsto> 380, ''luxury'' \<mapsto> 780]"

definition calculate_total_cost :: "pynum \<Rightarrow> string \<Rightarrow> pynum result" where
  "calculate_total_cost square_feet quality_level =
     (case base_costs_aed quality_level of
        None \<Rightarrow> Inl KeyError
      | Some rate \<Rightarrow> py_mul square_feet (PyInt rate))"

subsection \<open>\<^verbatim>\<open>calculate_dubai_fees\<close>\<close>

record dubai_fees =
  dld_fee :: pynum
  broker_fee :: pynum
  title_deed_fee :: pynum
  conveyance_fee :: pynum
  total_fees :: pynum

definition calculate_dubai_fees :: "pynum \<Rightarrow> dubai_fees result" where
  "calculate_dubai_fees property_value =
     bind_res (py_mul property_value (float_lit (4 / 100))) (\<lambda>dld.
     bind_res (py_mul property_value (float_lit (2 / 100))) (\<lambda>broker.
     let title_deed = PyInt 430; conveyance = PyInt 7350 in
     bind_res (py_add dld broker) (\<lambda>s1.
     bind_res (py_add s1 title_deed) (\<lambda>s2.
     bind_res (py_add s2 conveyance) (\<lambda>total.
     Inr \<lparr>dld_fee = dld, broker_fee = broker, title_deed_fee = title_deed,
          conveyance_fee = conveyance, total_fees = total\<rparr>)))))"

subsection \<open>\<^verbatim>\<open>estimate_property_values\<close>\<close>

record property_values =
  conservative :: pynum
  moderate :: pynum
  optimistic :: pynum

definition estimate_property_values :: "pynum \<Rightarrow> pynum \<Rightarrow> pynum \<Rightarrow> property_values result" where
  "estimate_property_values initial_value total_cost market_factor =
     bind_res (py_add (PyInt 1) market_factor) (\<lambda>growth.
     bind_res (py_mul total_cost growth) (\<lambda>value_increase.
     bind_res (py_add initial_value value_increase) (\<lambda>base_value.
     bind_res (py_add (float_lit (115 / 100)) market_factor) (\<lambda>m1.
     bind_res (py_mul base_value m1) (\<lambda>c.
     bind_res (py_add (float_lit (125 / 100)) market_factor) (\<lambda>m2.
     bind_res (py_mul base_value m2) (\<lambda>m.
     bind_res (py_add (float_lit (135 / 100)) market_factor) (\<lambda>m3.
     bind_res (py_mul base_value m3) (\<lambda>opt.
     Inr \<lparr>conservative = c, moderate = m, optimistic = opt\<rparr>)))))))))"

subsection \<open>\<^verbatim>\<open>calculate_roi_with_split\<close>\<close>

record roi_split =
  total_profit :: pynum
  investor_profit :: pynum
  company_profit :: pynum
  annual_roi :: pynum

definition calculate_roi_with_split ::
    "pynum \<Rightarrow> pynum \<Rightarrow> pynum \<Rightarrow> pynum \<Rightarrow> roi_split result" where
  "calculate_roi_with_split initial_investment final_value total_cost holding_period =
     bind_res (py_add initial_investment total_cost) (\<lambda>total_investment.
     bind_res (py_sub final_value total_investment) (\<lambda>profit.
     bind_res (py_mul profit (float_lit (88 / 100))) (\<lambda>investor.
     bind_res (py_mul profit (float_lit (12 / 100))) (\<lambda>company.
     bind_res (py_div investor total_investment) (\<lambda>ratio.
     bind_res (py_div (PyInt 12) holding_period) (\<lambda>per_year.
     bind_res (py_mul ratio per_year) (\<lambda>yearly.
     bind_res (py_mul yearly (PyInt 100)) (\<lambda>roi.
     Inr \<lparr>total_profit = profit, investor_profit = investor,
          company_profit = company, annual_roi = roi\<rparr>))))))))"

subsection \<open>\<^verbatim>\<open>calculate_share_investment\<close>\<close>

record share_investment =
  share_percentage :: pynum
  monthly_returns :: pynum
  total_returns :: pynum
  effective_annual_return :: pynum

definition calculate_share_investment ::
    "pynum \<Rightarrow> pynum \<Rightarrow> pynum \<Rightarrow> share_investment result" where
  "calculate_share_investment total_investment share_amount holding_period =
     bind_res (py_div share_amount total_investment) (\<lambda>fraction.
     bind_res (py_mul fraction (PyInt 100)) (\<lambda>percentage.
     let monthly_return_rate = float_lit (5 / 1000) in
     bind_res (py_mul share_amount monthly_return_rate) (\<lambda>monthly.
     bind_res (py_mul monthly holding_period) (\<lambda>total.
     bind_res (py_mul monthly_return_rate (PyInt 12)) (\<lambda>yearly_rate.
     bind_res (py_mul yearly_rate (PyInt 100)) (\<lambda>effective.
     Inr \<lparr>share_percentage = percentage, monthly_returns = monthly,
          total_returns = total, effective_annual_return = effective\<rparr>))))))"

subsection \<open>\<^verbatim>\<open>generate_monthly_projection\<close>\<close>

text \<open>
  The function is one call of NumPy's \<^verbatim>\<open>linspace\<close>, a library function outside the
  repository. The model follows NumPy's implementation (\<^verbatim>\<open>numpy/_core/function_base.py\<close>)
  for scalar \<^verbatim>\<open>start\<close> and \<^verbatim>\<open>stop\<close>, \<^verbatim>\<open>endpoint=True\<close> and the default \<^verbatim>\<open>dtype\<close>:
  \<^verbatim>\<open>
    num = operator.index(num)
    if num < 0: raise ValueError(...)
    div = num - 1
    start = asanyarray(start) * 1.0;  stop = asanyarray(stop) * 1.0
    delta = stop - start
    y = arange(0, num, dtype=float64)
    if div > 0:
        step = delta / div
        if step == 0:  y /= div;  y = y * delta
        else:          y = y * step
    else:
        y = y * delta
    y += start
    if num > 1: y[-1] = stop
    return y
  \<close>
  The array is a list of doubles (\<^verbatim>\<open>div\<close> is \<open>divisor\<close> below). NumPy's float64 arithmetic is IEEE arithmetic that
  returns infinities and NaN where it overflows or is invalid (it warns, it does not
  raise).
\<close>

fun np_index :: "pynum \<Rightarrow> int result" where
  "np_index (PyInt n) = Inr n"
| "np_index (PyFloat d) = Inl TypeError"

definition arange :: "nat \<Rightarrow> double list" where
  "arange n = map (\<lambda>i. round64 (of_nat i)) [0..<n]"

definition linspace :: "pynum \<Rightarrow> pynum \<Rightarrow> pynum \<Rightarrow> double list result" where
  "linspace start stop num =
     bind_res (np_index num) (\<lambda>n.
     if n < 0 then Inl ValueError
     else
       bind_res (as_float start) (\<lambda>start.
       bind_res (as_float stop) (\<lambda>stop.
       let divisor = n - 1;
           delta = dsub stop start;
           y = arange (nat n);
           y = (if 0 < divisor then
                  let step = ddiv delta (round64 (of_int divisor))
                  in if step = Finite 0
                     then map (\<lambda>v. dmul (ddiv v (round64 (of_int divisor))) delta) y
                     else map (\<lambda>v. dmul v step) y
                else map (\<lambda>v. dmul v delta) y);
           y = map (\<lambda>v. dadd v start) y
       in Inr (if 1 < n then y[nat n - 1 := stop] else y))))"

definition generate_monthly_projection ::
    "pynum \<Rightarrow> pynum \<Rightarrow> pynum \<Rightarrow> double list result" where
  "generate_monthly_projection initial_value final_value months =
     linspace initial_value final_value months"

subsection \<open>Comparison of Python numbers\<close>

text \<open>
  Python's \<^verbatim>\<open><\<close>: IEEE on floats (false whenever a NaN is involved), exact between an
  \<^verbatim>\<open>int\<close> and a \<^verbatim>\<open>float\<close>.
\<close>

fun dless :: "double \<Rightarrow> double \<Rightarrow> bool" where
  "dless NaN _ = False"
| "dless _ NaN = False"
| "dless (Finite x) (Finite y) = (x < y)"
| "dless NegInf NegInf = False"
| "dless NegInf _ = True"
| "dless _ NegInf = False"
| "dless PosInf _ = False"
| "dless _ PosInf = True"

fun py_less :: "pynum \<Rightarrow> pynum \<Rightarrow> bool" where
  "py_less (PyInt a) (PyInt b) = (a < b)"
| "py_less (PyInt a) (PyFloat y) = dless (Finite (of_int a)) y"
| "py_less (PyFloat x) (PyInt b) = dless x (Finite (of_int b))"
| "py_less (PyFloat x) (PyFloat y) = dless x y"

text \<open>The number that a finite Python number denotes.\<close>

fun py_value :: "pynum \<Rightarrow> rat option" where
  "py_value (PyInt n) = Some (of_int n)"
| "py_value (PyFloat (Finite x)) = Some x"
| "py_value (PyFloat _) = None"

section \<open>Facts about rounding\<close>

lemma ilog2_lower: assumes "0 < a" shows "2 powi ilog2 a \<le> a"
proof (cases "1 \<le> a")
  case True
  define n where "n = \<lfloor>a\<rfloor>"
  have n: "0 < n" using True by (simp add: n_def)
  then have b1: "1 \<le> bitlen n" by (simp add: bitlen_alt_def)
  have "(2::int) ^ nat (bitlen n - 1) \<le> n" using bitlen_bounds [OF n] by simp
  then have "of_int ((2::int) ^ nat (bitlen n - 1)) \<le> (of_int n :: rat)"
    by (simp only: of_int_le_iff)
  then have "(2::rat) ^ nat (bitlen n - 1) \<le> of_int n" by simp
  moreover have "(of_int n :: rat) \<le> a" by (simp add: n_def)
  moreover have "(2::rat) powi (bitlen n - 1) = 2 ^ nat (bitlen n - 1)"
    using b1 by (simp add: power_int_nonneg_exp)
  ultimately have "(2::rat) powi (bitlen n - 1) \<le> a" by linarith
  then show ?thesis using True by (simp add: ilog2_def n_def)
next
  case False
  define n where "n = \<lceil>1 / a\<rceil>"
  define k where "k = bitlen (n - 1)"
  have "1 < 1 / a" using False assms by simp
  then have n: "0 < n - 1" unfolding n_def by linarith
  have k0: "0 \<le> k" by (simp add: k_def bitlen_nonneg)
  have "n - 1 < 2 ^ nat k" using bitlen_bounds [OF n] by (simp add: k_def)
  then have "n \<le> 2 ^ nat k" by simp
  then have "(of_int n :: rat) \<le> of_int (2 ^ nat k)" by (simp only: of_int_le_iff)
  then have "(of_int n :: rat) \<le> 2 ^ nat k" by simp
  moreover have "1 / a \<le> of_int n" by (simp add: n_def)
  ultimately have "1 / a \<le> 2 ^ nat k" by linarith
  then have "1 / 2 ^ nat k \<le> a" using assms
    by (simp add: field_simps)
  moreover have "(2::rat) powi (- k) = 1 / 2 ^ nat k"
    using k0 by (simp add: power_int_minus_divide power_int_nonneg_exp)
  ultimately show ?thesis using False by (simp add: ilog2_def n_def k_def)
qed

lemma ilog2_upper: assumes "0 < a" shows "a < 2 powi (ilog2 a + 1)"
proof (cases "1 \<le> a")
  case True
  define n where "n = \<lfloor>a\<rfloor>"
  have n: "0 < n" using True by (simp add: n_def)
  then have b1: "1 \<le> bitlen n" by (simp add: bitlen_alt_def)
  have "n < 2 ^ nat (bitlen n)" using bitlen_bounds [OF n] by simp
  then have "n + 1 \<le> 2 ^ nat (bitlen n)" by simp
  then have "(of_int (n + 1) :: rat) \<le> of_int (2 ^ nat (bitlen n))"
    by (simp only: of_int_le_iff)
  then have "(of_int n :: rat) + 1 \<le> 2 ^ nat (bitlen n)" by simp
  moreover have "a < of_int n + 1" unfolding n_def by linarith
  moreover have "(2::rat) powi (bitlen n) = 2 ^ nat (bitlen n)"
    using b1 by (simp add: power_int_nonneg_exp)
  ultimately have "a < (2::rat) powi (bitlen n)" by linarith
  then show ?thesis using True by (simp add: ilog2_def n_def)
next
  case False
  define n where "n = \<lceil>1 / a\<rceil>"
  define k where "k = bitlen (n - 1)"
  have "1 < 1 / a" using False assms by simp
  then have n: "0 < n - 1" unfolding n_def by linarith
  then have k1: "1 \<le> k" by (simp add: k_def bitlen_alt_def)
  have "2 ^ nat (k - 1) \<le> n - 1" using bitlen_bounds [OF n] by (simp add: k_def)
  then have "(of_int (2 ^ nat (k - 1)) :: rat) \<le> of_int (n - 1)" by (simp only: of_int_le_iff)
  then have "(2::rat) ^ nat (k - 1) \<le> of_int n - 1" by simp
  moreover have "of_int n - 1 < 1 / a" unfolding n_def by linarith
  ultimately have "2 ^ nat (k - 1) < 1 / a" by linarith
  then have "a < 1 / 2 ^ nat (k - 1)" using assms
    by (simp add: field_simps)
  moreover have "(2::rat) powi (- k + 1) = 1 / 2 ^ nat (k - 1)"
  proof -
    have "(2::rat) powi (- k + 1) = 2 powi (- (k - 1))" by simp
    also have "\<dots> = 1 / 2 powi (k - 1)" by (rule power_int_minus_divide)
    also have "\<dots> = 1 / 2 ^ nat (k - 1)" using k1 by (simp add: power_int_nonneg_exp)
    finally show ?thesis .
  qed
  ultimately show ?thesis using False by (simp add: ilog2_def n_def k_def)
qed

lemma ilog2_unique:
  assumes "2 powi e \<le> a" and "a < 2 powi (e + 1)"
  shows "ilog2 a = e"
proof -
  have a: "0 < a" using assms(1) by (rule less_le_trans [rotated]) simp
  have "(2::rat) powi ilog2 a < 2 powi (e + 1)"
    using ilog2_lower [OF a] assms(2) by linarith
  then have 1: "ilog2 a < e + 1"
    by (metis not_less power_int_increasing one_le_numeral)
  have "(2::rat) powi e < 2 powi (ilog2 a + 1)"
    using ilog2_upper [OF a] assms(1) by linarith
  then have 2: "e < ilog2 a + 1"
    by (metis not_less power_int_increasing one_le_numeral)
  from 1 2 show ?thesis by simp
qed

lemma round_half_even_near:
  assumes "\<bar>r - of_int m\<bar> < 1 / 2"
  shows "round_half_even r = m"
proof (cases "of_int m \<le> r")
  case True
  then have "\<lfloor>r\<rfloor> = m" using assms by (intro floor_unique) linarith+
  then show ?thesis using assms True by (simp add: round_half_even_def Let_def)
next
  case False
  have "of_int (m - 1) \<le> r" using assms by (simp add: abs_if split: if_splits)
  moreover have "r < of_int (m - 1) + 1" using False by simp
  ultimately have f: "\<lfloor>r\<rfloor> = m - 1" by (rule floor_unique)
  have "1 / 2 < r - of_int (m - 1)" using assms False by (simp add: abs_if split: if_splits)
  then show ?thesis using f by (simp add: round_half_even_def Let_def)
qed

lemma round_half_even_tie:
  assumes "r = of_int f + 1 / 2"
  shows "round_half_even r = (if even f then f else f + 1)"
proof -
  have "\<lfloor>r\<rfloor> = f" unfolding assms by (intro floor_unique) simp_all
  then show ?thesis by (simp add: round_half_even_def Let_def assms)
qed

lemma round_half_even_int [simp]: "round_half_even (of_int m) = m"
  by (rule round_half_even_near) simp

lemma round_half_even_bound: "\<bar>r - of_int (round_half_even r)\<bar> \<le> 1 / 2"
proof -
  define f where "f = \<lfloor>r\<rfloor>"
  have "of_int f \<le> r" "r < of_int f + 1" unfolding f_def by linarith+
  then show ?thesis unfolding round_half_even_def Let_def f_def [symmetric]
    by (auto simp: abs_if)
qed


lemma ulp_of_eq:
  assumes "2 powi e \<le> \<bar>q\<bar>" and "\<bar>q\<bar> < 2 powi (e + 1)"
  shows "ulp_of q = 2 powi (max e (- 1022) - 52)"
  using ilog2_unique [OF assms] by (simp add: ulp_of_def)

lemma ulp_of_pos [simp]: "0 < ulp_of q"
  by (simp add: ulp_of_def)

lemma ulp_of_nonneg [simp]: "0 \<le> ulp_of q"
  by (rule less_imp_le) simp

lemma ulp_of_neq0 [simp]: "ulp_of q \<noteq> 0"
  using ulp_of_pos [of q] by linarith

lemma abs_ulp_of [simp]: "\<bar>ulp_of q\<bar> = ulp_of q"
  by simp

lemma round64_near:
  assumes e: "2 powi e \<le> \<bar>q\<bar>" "\<bar>q\<bar> < 2 powi (e + 1)"
    and k: "k = max e (- 1022) - 52"
    and r: "r = of_int m * 2 powi k"
    and near: "\<bar>q - r\<bar> * 2 < 2 powi k"
    and fin: "\<bar>r\<bar> < 2 ^ 1024"
  shows "round64 q = Finite r"
proof -
  have "(0::rat) < 2 powi e" by simp
  then have "0 < \<bar>q\<bar>" using e(1) by linarith
  then have q0: "q \<noteq> 0" by simp
  have u: "ulp_of q = 2 powi k" using ulp_of_eq [OF e] k by simp
  have p: "(0::rat) < 2 powi k" by simp
  have "\<bar>q / 2 powi k - of_int m\<bar> = \<bar>q - r\<bar> / 2 powi k"
    using p by (simp add: r field_simps abs_divide flip: abs_mult)
  also have "\<dots> < 1 / 2" using near p by (simp add: field_simps)
  finally have "round_half_even (q / 2 powi k) = m" by (rule round_half_even_near)
  then show ?thesis using q0 fin by (simp add: round64_def u Let_def r not_le)
qed

lemma round64_tie:
  assumes e: "2 powi e \<le> \<bar>q\<bar>" "\<bar>q\<bar> < 2 powi (e + 1)"
    and k: "k = max e (- 1022) - 52"
    and q: "q = (of_int f + 1 / 2) * 2 powi k"
    and r: "r = of_int (if even f then f else f + 1) * 2 powi k"
    and fin: "\<bar>r\<bar> < 2 ^ 1024"
  shows "round64 q = Finite r"
proof -
  have "(0::rat) < 2 powi e" by simp
  then have "0 < \<bar>q\<bar>" using e(1) by linarith
  then have q0: "q \<noteq> 0" by simp
  have u: "ulp_of q = 2 powi k" using ulp_of_eq [OF e] k by simp
  have "q / 2 powi k = of_int f + 1 / 2" by (simp add: q)
  then have "round_half_even (q / 2 powi k) = (if even f then f else f + 1)"
    by (rule round_half_even_tie)
  then show ?thesis using q0 fin unfolding round64_def u Let_def r by (simp add: not_le)
qed

lemma round64_zero [simp]: "round64 0 = Finite 0"
  by (simp add: round64_def)


lemma round64_cases:
  obtains "q = 0" "round64 q = Finite 0"
  | m where "q \<noteq> 0" "\<bar>q / ulp_of q - of_int m\<bar> \<le> 1 / 2"
      "round64 q = (if 2 ^ 1024 \<le> \<bar>of_int m * ulp_of q\<bar>
                    then (if 0 < q then PosInf else NegInf) else Finite (of_int m * ulp_of q))"
proof (cases "q = 0")
  case True
  then show ?thesis using that(1) by simp
next
  case False
  show ?thesis
    using that(2) [of "round_half_even (q / ulp_of q)"] False
      round_half_even_bound [of "q / ulp_of q"]
    by (simp add: round64_def Let_def)
qed

lemma round64_abs_error:
  assumes "round64 q = Finite r"
  shows "\<bar>r - q\<bar> * 2 \<le> ulp_of q"
proof (cases q rule: round64_cases)
  case 1
  then show ?thesis using assms by (simp add: less_imp_le)
next
  case (2 m)
  have u: "0 < ulp_of q" by simp
  from 2(3) assms have r: "r = of_int m * ulp_of q" by (simp split: if_splits)
  have "\<bar>r - q\<bar> = \<bar>q / ulp_of q - of_int m\<bar> * ulp_of q"
  proof -
    have "r - q = - ((q / ulp_of q - of_int m) * ulp_of q)"
      using u by (simp add: r field_simps)
    then have "\<bar>r - q\<bar> = \<bar>(q / ulp_of q - of_int m) * ulp_of q\<bar>" by simp
    also have "\<dots> = \<bar>q / ulp_of q - of_int m\<bar> * ulp_of q"
      using u by (simp add: abs_mult)
    finally show ?thesis .
  qed
  also have "\<dots> \<le> 1 / 2 * ulp_of q"
    using 2(2) u by (intro mult_right_mono) simp_all
  finally show ?thesis by simp
qed

lemma ulp_of_normal:
  assumes "2 powi (- 1022) \<le> \<bar>q\<bar>"
  shows "ulp_of q * 2 ^ 52 \<le> \<bar>q\<bar>"
proof -
  have "(0::rat) < 2 powi (- 1022)" by simp
  with assms have q: "0 < \<bar>q\<bar>" by linarith
  have "(2::rat) powi (- 1022) < 2 powi (ilog2 \<bar>q\<bar> + 1)"
    using ilog2_upper [OF q] assms by linarith
  then have "- 1022 < ilog2 \<bar>q\<bar> + 1"
    by (metis not_less power_int_increasing one_le_numeral)
  then have "ulp_of q = 2 powi (ilog2 \<bar>q\<bar> - 52)" by (simp add: ulp_of_def max_def)
  also have "\<dots> = 2 powi ilog2 \<bar>q\<bar> / 2 ^ 52"
    by (simp add: power_int_diff)
  finally have "ulp_of q * 2 ^ 52 = 2 powi ilog2 \<bar>q\<bar>" by simp
  then show ?thesis using ilog2_lower [OF q] by simp
qed

lemma ulp_of_general:
  assumes "q \<noteq> 0"
  shows "ulp_of q \<le> \<bar>q\<bar> / 2 ^ 52 + 2 powi (- 1074)"
proof (cases "2 powi (- 1022) \<le> \<bar>q\<bar>")
  case True
  have "ulp_of q \<le> \<bar>q\<bar> / 2 ^ 52" using ulp_of_normal [OF True] by (simp add: field_simps)
  moreover have "(0::rat) < 2 powi (- 1074)" by simp
  ultimately show ?thesis by linarith
next
  case False
  have q: "0 < \<bar>q\<bar>" using assms by simp
  have "(2::rat) powi ilog2 \<bar>q\<bar> < 2 powi (- 1022)"
    using ilog2_lower [OF q] False by linarith
  then have "ilog2 \<bar>q\<bar> < - 1022"
    by (metis not_less power_int_increasing one_le_numeral)
  then have "ulp_of q = 2 powi (- 1074)" by (simp add: ulp_of_def max_def)
  moreover have "0 \<le> \<bar>q\<bar> / 2 ^ 52" by simp
  ultimately show ?thesis by linarith
qed

lemma round64_rel_error:
  assumes "round64 q = Finite r" and "2 powi (- 1022) \<le> \<bar>q\<bar>"
  shows "\<bar>r - q\<bar> * 2 ^ 53 \<le> \<bar>q\<bar>"
proof -
  have "\<bar>r - q\<bar> * 2 ^ 53 = (\<bar>r - q\<bar> * 2) * 2 ^ 52" by simp
  also have "\<dots> \<le> ulp_of q * 2 ^ 52"
    using round64_abs_error [OF assms(1)] by (intro mult_right_mono) simp_all
  also have "\<dots> \<le> \<bar>q\<bar>" by (rule ulp_of_normal [OF assms(2)])
  finally show ?thesis .
qed

lemma round64_gen_error:
  assumes "round64 q = Finite r"
  shows "\<bar>r - q\<bar> \<le> \<bar>q\<bar> / 2 ^ 53 + 2 powi (- 1075)"
proof (cases "q = 0")
  case True
  then show ?thesis using assms by simp
next
  case False
  have "\<bar>r - q\<bar> * 2 \<le> \<bar>q\<bar> / 2 ^ 52 + 2 powi (- 1074)"
    using round64_abs_error [OF assms] ulp_of_general [OF False] by linarith
  then show ?thesis by simp
qed

lemma ulp_of_le_971:
  assumes "\<bar>q\<bar> < 2 ^ 1024" and "q \<noteq> 0"
  shows "ulp_of q \<le> 2 ^ 971"
proof -
  have q: "0 < \<bar>q\<bar>" using assms by simp
  have "(2::rat) powi ilog2 \<bar>q\<bar> < 2 powi 1024"
    using ilog2_lower [OF q] assms(1) by simp
  then have "ilog2 \<bar>q\<bar> < 1024"
    by (metis not_less power_int_increasing one_le_numeral)
  then have "max (ilog2 \<bar>q\<bar>) (- 1022) - 52 \<le> 971" by simp
  then have "(2::rat) powi (max (ilog2 \<bar>q\<bar>) (- 1022) - 52) \<le> 2 powi 971"
    by (intro power_int_increasing) simp_all
  then show ?thesis by (simp add: ulp_of_def)
qed

lemma round64_finite:
  assumes "\<bar>q\<bar> < 2 ^ 1024 - 2 ^ 970"
  shows "\<exists>r. round64 q = Finite r"
proof (cases q rule: round64_cases)
  case 1
  then show ?thesis by simp
next
  case (2 m)
  have u: "0 < ulp_of q" by simp
  have u971: "ulp_of q \<le> 2 ^ 971" using assms 2(1) by (intro ulp_of_le_971) simp_all
  have "\<bar>of_int m\<bar> \<le> \<bar>q / ulp_of q\<bar> + 1 / 2" using 2(2) by linarith
  then have "\<bar>of_int m\<bar> * ulp_of q \<le> (\<bar>q / ulp_of q\<bar> + 1 / 2) * ulp_of q"
    using u by (intro mult_right_mono) simp_all
  also have "\<dots> = \<bar>q\<bar> + ulp_of q / 2" using u by (simp add: field_simps abs_divide)
  also have "\<dots> < 2 ^ 1024" using assms u971 by simp
  finally have "\<bar>of_int m * ulp_of q\<bar> < 2 ^ 1024" using u by (simp add: abs_mult)
  then show ?thesis using 2(3) by simp
qed

lemma round_half_even_nonneg: "0 \<le> r \<Longrightarrow> 0 \<le> round_half_even r"
  using round_half_even_bound [of r] by linarith

lemma round_half_even_nonpos: "r \<le> 0 \<Longrightarrow> round_half_even r \<le> 0"
  using round_half_even_bound [of r] by linarith

lemma round64_nonneg:
  assumes "round64 q = Finite r" and "0 \<le> q"
  shows "0 \<le> r"
proof -
  have "0 \<le> q / ulp_of q" using assms(2) by simp
  then have "0 \<le> round_half_even (q / ulp_of q)" by (rule round_half_even_nonneg)
  then have "(0::rat) \<le> of_int (round_half_even (q / ulp_of q)) * ulp_of q" by simp
  then show ?thesis using assms(1) by (auto simp: round64_def Let_def split: if_splits)
qed

lemma round64_nonpos:
  assumes "round64 q = Finite r" and "q \<le> 0"
  shows "r \<le> 0"
proof -
  have "q / ulp_of q \<le> 0" using assms(2) by (simp add: divide_le_0_iff)
  then have "round_half_even (q / ulp_of q) \<le> 0" by (rule round_half_even_nonpos)
  then have "of_int (round_half_even (q / ulp_of q)) * ulp_of q \<le> (0::rat)"
    by (simp add: mult_le_0_iff)
  then show ?thesis using assms(1) by (auto simp: round64_def Let_def split: if_splits)
qed

lemma round64_not_NaN [simp]: "round64 q \<noteq> NaN"
  by (simp add: round64_def Let_def)

lemma round64_ge_half:
  assumes "round64 q = Finite r" and "1 \<le> q"
  shows "1 / 2 \<le> r"
proof -
  have "(2::rat) powi (- 1022) \<le> 1" by (simp add: power_int_minus_divide)
  then have "2 powi (- 1022) \<le> \<bar>q\<bar>" using assms(2) by linarith
  from round64_rel_error [OF assms(1) this] have "\<bar>r - q\<bar> * 2 ^ 53 \<le> \<bar>q\<bar>" .
  then have "\<bar>r - q\<bar> * 2 \<le> q" using assms(2) by simp
  moreover have "q - r \<le> \<bar>r - q\<bar>" by (simp add: abs_if)
  then have "(q - r) * 2 \<le> \<bar>r - q\<bar> * 2" by (rule mult_right_mono) simp
  ultimately have "(q - r) * 2 \<le> q" by (rule order_trans [rotated])
  then have "q \<le> r * 2" by simp
  then show ?thesis using assms(2) by simp
qed

lemma round64_count_nonzero:
  assumes "1 \<le> (k::int)"
  shows "round64 (of_int k) \<noteq> Finite 0"
proof
  assume "round64 (of_int k) = Finite 0"
  moreover have "(1::rat) \<le> of_int k" using assms by simp
  ultimately have "1 / 2 \<le> (0::rat)" by (rule round64_ge_half)
  then show False by simp
qed

text \<open>
  Crude two-sided bounds for the rounding of a non-negative number: enough to follow
  the size of a value through additions and multiplications.
\<close>

lemma round64_upper:
  assumes "0 \<le> q" and "q \<le> 2 ^ 1022"
  shows "\<exists>r. round64 q = Finite r \<and> 0 \<le> r \<and> r \<le> 2 * q + 1"
proof -
  have "(2::rat) ^ 1022 < 2 ^ 1024 - 2 ^ 970" by simp
  then have "\<bar>q\<bar> < 2 ^ 1024 - 2 ^ 970" using assms by linarith
  from round64_finite [OF this] obtain r where r: "round64 q = Finite r" ..
  have "\<bar>r - q\<bar> \<le> \<bar>q\<bar> / 2 ^ 53 + 2 powi (- 1075)" by (rule round64_gen_error [OF r])
  moreover have "(2::rat) powi (- 1075) \<le> 1" by (simp add: power_int_minus_divide)
  moreover have "\<bar>q\<bar> / 2 ^ 53 \<le> q" using assms(1) by (simp add: field_simps)
  moreover have "r - q \<le> \<bar>r - q\<bar>" by simp
  ultimately have "r \<le> 2 * q + 1" by linarith
  with r round64_nonneg [OF r assms(1)] show ?thesis by blast
qed

lemma round64_relative:
  assumes "round64 q = Finite r" and "2 powi (- 1022) \<le> q"
  shows "q * (999 / 1000) \<le> r" and "r \<le> q * (1001 / 1000)"
proof -
  have "(0::rat) < 2 powi (- 1022)" by simp
  with assms(2) have q: "0 < q" by linarith
  then have "2 powi (- 1022) \<le> \<bar>q\<bar>" using assms(2) by simp
  from round64_rel_error [OF assms(1) this] q have "\<bar>r - q\<bar> * 2 ^ 53 \<le> q" by simp
  then have "\<bar>r - q\<bar> \<le> q / 2 ^ 53" by (simp add: field_simps)
  moreover have "q / 2 ^ 53 \<le> q / 1000" using q by (intro divide_left_mono) simp_all
  moreover have "r - q \<le> \<bar>r - q\<bar>" "q - r \<le> \<bar>r - q\<bar>" by simp_all
  ultimately have "r - q \<le> q / 1000" "q - r \<le> q / 1000" by linarith+
  then show "q * (999 / 1000) \<le> r" and "r \<le> q * (1001 / 1000)" by simp_all
qed

section \<open>Roundings at concrete numbers\<close>

text \<open>
  Each lemma gives the double nearest to one rational, by the exponent and the
  significand that \<open>round64_near\<close> (or \<open>round64_tie\<close> at a midpoint) then checks.
\<close>

lemma r64_1: "round64 100 = Finite 100"
  by (rule round64_near [where e = "6" and m = "7036874417766400" and k = "- 46"]) simp_all

lemma r64_2: "round64 200 = Finite 200"
  by (rule round64_near [where e = "7" and m = "7036874417766400" and k = "- 45"]) simp_all

lemma r64_3: "round64 1 = Finite 1"
  by (rule round64_near [where e = "0" and m = "4503599627370496" and k = "- 52"]) simp_all

lemma r64_4: "round64 (1 / 200) = Finite (5764607523034235 / 1152921504606846976)"
  by (rule round64_near [where e = "- 8" and m = "5764607523034235" and k = "- 60"]) simp_all

lemma r64_5: "round64 1570000 = Finite 1570000"
  by (rule round64_near [where e = "20" and m = "6743098654720000" and k = "- 32"]) simp_all

lemma r64_6: "round64 (565652113197734309375 / 72057594037927936) = Finite 7850"
  by (rule round64_near [where e = "12" and m = "8631166278041600" and k = "- 40"]) simp_all

lemma r64_7: "round64 12 = Finite 12"
  by (rule round64_near [where e = "3" and m = "6755399441055744" and k = "- 49"]) simp_all

lemma r64_8: "round64 94200 = Finite 94200"
  by (rule round64_near [where e = "16" and m = "6473374708531200" and k = "- 36"]) simp_all

lemma r64_9: "round64 (17293822569102705 / 288230376151711744) = Finite (1080863910568919 / 18014398509481984)"
  by (rule round64_tie [where e = "- 5" and f = "8646911284551352" and k = "- 57"]) simp_all

lemma r64_10: "round64 (27021597764222975 / 4503599627370496) = Finite 6"
  by (rule round64_near [where e = "2" and m = "6755399441055744" and k = "- 50"]) simp_all

lemma r64_11: "round64 (1 / 25) = Finite (5764607523034235 / 144115188075855872)"
  by (rule round64_near [where e = "- 5" and m = "5764607523034235" and k = "- 57"]) simp_all

lemma r64_12: "round64 (1 / 50) = Finite (5764607523034235 / 288230376151711744)"
  by (rule round64_near [where e = "- 6" and m = "5764607523034235" and k = "- 58"]) simp_all

lemma r64_13: "round64 430 = Finite 430"
  by (rule round64_near [where e = "8" and m = "7564639999098880" and k = "- 44"]) simp_all

lemma r64_14: "round64 7350 = Finite 7350"
  by (rule round64_near [where e = "12" and m = "8081410464153600" and k = "- 40"]) simp_all

lemma r64_15: "round64 7780 = Finite 7780"
  by (rule round64_near [where e = "12" and m = "8554200464097280" and k = "- 40"]) simp_all

lemma r64_16: "round64 (2828260565988671546875 / 36028797018963968) = Finite 78500"
  by (rule round64_near [where e = "16" and m = "5394478923776000" and k = "- 36"]) simp_all

lemma r64_17: "round64 (2828260565988671546875 / 72057594037927936) = Finite 39250"
  by (rule round64_near [where e = "15" and m = "5394478923776000" and k = "- 37"]) simp_all

lemma r64_18: "round64 117750 = Finite 117750"
  by (rule round64_near [where e = "16" and m = "8091718385664000" and k = "- 36"]) simp_all

lemma r64_19: "round64 118180 = Finite 118180"
  by (rule round64_near [where e = "16" and m = "8121267760660480" and k = "- 36"]) simp_all

lemma r64_20: "round64 125530 = Finite 125530"
  by (rule round64_near [where e = "16" and m = "8626355914670080" and k = "- 36"]) simp_all

lemma r64_21: "round64 300 = Finite 300"
  by (rule round64_near [where e = "8" and m = "5277655813324800" and k = "- 44"]) simp_all

lemma r64_22: "round64 380 = Finite 380"
  by (rule round64_near [where e = "8" and m = "6685030696878080" and k = "- 44"]) simp_all

lemma r64_23: "round64 780 = Finite 780"
  by (rule round64_near [where e = "9" and m = "6860952557322240" and k = "- 43"]) simp_all

lemma r64_24: "round64 (- (144115188075855875 / 36028797018963968)) = Finite (- 4)"
  by (rule round64_near [where e = "2" and m = "- 4503599627370496" and k = "- 50"]) simp_all

lemma r64_25: "round64 (- (144115188075855875 / 72057594037927936)) = Finite (- 2)"
  by (rule round64_near [where e = "1" and m = "- 4503599627370496" and k = "- 51"]) simp_all

lemma r64_26: "round64 (- 6) = Finite (- 6)"
  by (rule round64_near [where e = "2" and m = "- 6755399441055744" and k = "- 50"]) simp_all

lemma r64_27: "round64 424 = Finite 424"
  by (rule round64_near [where e = "8" and m = "7459086882832384" and k = "- 44"]) simp_all

lemma r64_28: "round64 7774 = Finite 7774"
  by (rule round64_near [where e = "12" and m = "8547603394330624" and k = "- 40"]) simp_all

lemma r64_29: "round64 392500 = Finite 392500"
  by (rule round64_near [where e = "18" and m = "6743098654720000" and k = "- 34"]) simp_all

lemma r64_30: "round64 (22 / 25) = Finite (7926335344172073 / 9007199254740992)"
  by (rule round64_near [where e = "- 1" and m = "7926335344172073" and k = "- 53"]) simp_all

lemma r64_31: "round64 (777771655646884663125 / 2251799813685248) = Finite 345400"
  by (rule round64_near [where e = "18" and m = "5933926816153600" and k = "- 34"]) simp_all

lemma r64_32: "round64 (3 / 25) = Finite (1080863910568919 / 9007199254740992)"
  by (rule round64_near [where e = "- 4" and m = "8646911284551352" and k = "- 56"]) simp_all

lemma r64_33: "round64 (106059771224575176875 / 2251799813685248) = Finite 47100"
  by (rule round64_near [where e = "15" and m = "6473374708531200" and k = "- 37"]) simp_all

lemma r64_34: "round64 (11 / 50) = Finite (7926335344172073 / 36028797018963968)"
  by (rule round64_near [where e = "- 3" and m = "7926335344172073" and k = "- 55"]) simp_all

lemma r64_35: "round64 (- 1) = Finite (- 1)"
  by (rule round64_near [where e = "0" and m = "- 4503599627370496" and k = "- 52"]) simp_all

lemma r64_36: "round64 (- (7926335344172073 / 36028797018963968)) = Finite (- (7926335344172073 / 36028797018963968))"
  by (rule round64_near [where e = "- 3" and m = "- 7926335344172073" and k = "- 55"]) simp_all

lemma r64_37: "round64 (- (198158383604301825 / 9007199254740992)) = Finite (- 22)"
  by (rule round64_near [where e = "4" and m = "- 6192449487634432" and k = "- 48"]) simp_all

lemma r64_38: "round64 570 = Finite 570"
  by (rule round64_near [where e = "9" and m = "5013773022658560" and k = "- 43"]) simp_all

lemma r64_39: "round64 1962500 = Finite 1962500"
  by (rule round64_near [where e = "20" and m = "8428873318400000" and k = "- 32"]) simp_all

lemma r64_40: "round64 (3888858278234423315625 / 2251799813685248) = Finite 1727000"
  by (rule round64_near [where e = "20" and m = "7417408520192000" and k = "- 32"]) simp_all

lemma r64_41: "round64 (530298856122875884375 / 2251799813685248) = Finite 235500"
  by (rule round64_near [where e = "17" and m = "8091718385664000" and k = "- 35"]) simp_all

lemma r64_42: "round64 570000 = Finite 570000"
  by (rule round64_near [where e = "19" and m = "4896262717440000" and k = "- 33"]) simp_all

lemma r64_43: "round64 1000000 = Finite 1000000"
  by (rule round64_near [where e = "19" and m = "8589934592000000" and k = "- 33"]) simp_all

lemma r64_44: "round64 (23 / 20) = Finite (2589569785738035 / 2251799813685248)"
  by (rule round64_near [where e = "0" and m = "5179139571476070" and k = "- 52"]) simp_all

lemma r64_45: "round64 (2589569785738035 / 2251799813685248) = Finite (2589569785738035 / 2251799813685248)"
  by (rule round64_near [where e = "0" and m = "5179139571476070" and k = "- 52"]) simp_all

lemma r64_46: "round64 (254101535225544684375 / 140737488355328) = Finite (7754563452927999 / 4294967296)"
  by (rule round64_near [where e = "20" and m = "7754563452927999" and k = "- 32"]) simp_all

lemma r64_47: "round64 (5 / 4) = Finite (5 / 4)"
  by (rule round64_near [where e = "0" and m = "5629499534213120" and k = "- 52"]) simp_all

lemma r64_48: "round64 (27 / 20) = Finite (3039929748475085 / 2251799813685248)"
  by (rule round64_near [where e = "0" and m = "6079859496950170" and k = "- 52"]) simp_all

lemma r64_49: "round64 (3039929748475085 / 2251799813685248) = Finite (3039929748475085 / 2251799813685248)"
  by (rule round64_near [where e = "0" and m = "6079859496950170" and k = "- 52"]) simp_all

lemma r64_50: "round64 (298293106569117715625 / 140737488355328) = Finite 2119500"
  by (rule round64_near [where e = "21" and m = "4551591591936000" and k = "- 31"]) simp_all

lemma r64_51: "round64 2 = Finite 2"
  by (rule round64_near [where e = "1" and m = "4503599627370496" and k = "- 51"]) simp_all

lemma r64_52: "round64 50 = Finite 50"
  by (rule round64_near [where e = "5" and m = "7036874417766400" and k = "- 47"]) simp_all

lemma r64_53: "round64 150 = Finite 150"
  by (rule round64_near [where e = "7" and m = "5277655813324800" and k = "- 45"]) simp_all

lemma r64_54: "round64 3 = Finite 3"
  by (rule round64_near [where e = "1" and m = "6755399441055744" and k = "- 51"]) simp_all

lemma r64_55: "round64 (1 / 3) = Finite (6004799503160661 / 18014398509481984)"
  by (rule round64_near [where e = "- 2" and m = "6004799503160661" and k = "- 54"]) simp_all

lemma r64_56: "round64 (6004799503160661 / 18014398509481984) = Finite (6004799503160661 / 18014398509481984)"
  by (rule round64_near [where e = "- 2" and m = "6004799503160661" and k = "- 54"]) simp_all

lemma r64_57: "round64 (6004799503160661 / 9007199254740992) = Finite (6004799503160661 / 9007199254740992)"
  by (rule round64_near [where e = "- 1" and m = "6004799503160661" and k = "- 53"]) simp_all

lemma r64_58: "round64 (18014398509481983 / 18014398509481984) = Finite 1"
  by (rule round64_tie [where e = "- 1" and f = "9007199254740991" and k = "- 53"]) simp_all

lemma r64_59: "round64 (3002399751580331 / 9007199254740992) = Finite (3002399751580331 / 9007199254740992)"
  by (rule round64_near [where e = "- 2" and m = "6004799503160662" and k = "- 54"]) simp_all

lemma r64_60: "round64 668000 = Finite 668000"
  by (rule round64_near [where e = "19" and m = "5738076307456000" and k = "- 33"]) simp_all

lemma r64_61: "round64 (5896904198062079 / 4294967296) = Finite (5896904198062079 / 4294967296)"
  by (rule round64_near [where e = "20" and m = "5896904198062079" and k = "- 32"]) simp_all

lemma r64_62: "round64 (46740840166296131079893312119767 / 38685626227668133590597632) = Finite (2594637847147315 / 2147483648)"
  by (rule round64_near [where e = "20" and m = "5189275694294630" and k = "- 32"]) simp_all

lemma r64_63: "round64 (6373750931767653970126169922601 / 38685626227668133590597632) = Finite (1415257007534899 / 8589934592)"
  by (rule round64_near [where e = "17" and m = "5661028030139596" and k = "- 35"]) simp_all

lemma r64_64: "round64 (518927569429463 / 286903815372800) = Finite (4072866729356801 / 2251799813685248)"
  by (rule round64_near [where e = "0" and m = "8145733458713602" and k = "- 52"]) simp_all

lemma r64_65: "round64 (4072866729356801 / 2251799813685248) = Finite (4072866729356801 / 2251799813685248)"
  by (rule round64_near [where e = "0" and m = "8145733458713602" and k = "- 52"]) simp_all

lemma r64_66: "round64 (101821668233920025 / 562949953421312) = Finite (3181927132310001 / 17592186044416)"
  by (rule round64_near [where e = "7" and m = "6363854264620002" and k = "- 45"]) simp_all

lemma r64_67: "round64 (11793808396124159 / 8589934592) = Finite 1372980"
  by (rule round64_tie [where e = "20" and f = "5896904198062079" and k = "- 32"]) simp_all

lemma r64_68: "round64 (7926335344172073 / 36028797018963968) = Finite (7926335344172073 / 36028797018963968)"
  by (rule round64_near [where e = "- 3" and m = "7926335344172073" and k = "- 55"]) simp_all

lemma r64_69: "round64 (198158383604301825 / 9007199254740992) = Finite 22"
  by (rule round64_near [where e = "4" and m = "6192449487634432" and k = "- 48"]) simp_all

lemma r64_70: "round64 (- 1000000) = Finite (- 1000000)"
  by (rule round64_near [where e = "19" and m = "- 8589934592000000" and k = "- 33"]) simp_all

lemma r64_71: "round64 (- (40462027902156796875 / 35184372088832)) = Finite (- 1150000)"
  by (rule round64_near [where e = "20" and m = "- 4939212390400000" and k = "- 32"]) simp_all

lemma r64_72: "round64 (- 1250000) = Finite (- 1250000)"
  by (rule round64_near [where e = "20" and m = "- 5368709120000000" and k = "- 32"]) simp_all

lemma r64_73: "round64 (- (47498902319923203125 / 35184372088832)) = Finite (- 1350000)"
  by (rule round64_near [where e = "20" and m = "- 5798205849600000" and k = "- 32"]) simp_all

lemma r64_74: "round64 (674309865472001 / 4294967296) = Finite (674309865472001 / 4294967296)"
  by (rule round64_near [where e = "17" and m = "5394478923776008" and k = "- 35"]) simp_all

lemma r64_75: "round64 157000 = Finite 157000"
  by (rule round64_near [where e = "17" and m = "5394478923776000" and k = "- 35"]) simp_all

lemma r64_76: "round64 (1 / 10) = Finite (3602879701896397 / 36028797018963968)"
  by (rule round64_near [where e = "- 4" and m = "7205759403792794" and k = "- 56"]) simp_all

lemma r64_77: "round64 (353532570748583955625 / 2251799813685248) = Finite 157000"
  by (rule round64_near [where e = "17" and m = "5394478923776000" and k = "- 35"]) simp_all

lemmas roundings = r64_1 r64_2 r64_3 r64_4 r64_5 r64_6 r64_7 r64_8 r64_9 r64_10 r64_11
  r64_12 r64_13 r64_14 r64_15 r64_16 r64_17 r64_18 r64_19 r64_20 r64_21 r64_22 r64_23
  r64_24 r64_25 r64_26 r64_27 r64_28 r64_29 r64_30 r64_31 r64_32 r64_33 r64_34 r64_35
  r64_36 r64_37 r64_38 r64_39 r64_40 r64_41 r64_42 r64_43 r64_44 r64_45 r64_46 r64_47
  r64_48 r64_49 r64_50 r64_51 r64_52 r64_53 r64_54 r64_55 r64_56 r64_57 r64_58 r64_59
  r64_60 r64_61 r64_62 r64_63 r64_64 r64_65 r64_66 r64_67 r64_68 r64_69 r64_70 r64_71
  r64_72 r64_73 r64_74 r64_75 r64_76 r64_77


section \<open>Facts about the Python operations\<close>

lemmas py_eval =
  bind_res_def float_lit_def int_to_float_def dsub_def roundings

lemma bind_res_Inr [simp]: "bind_res (Inr v) f = f v"
  by (simp add: bind_res_def)

lemma bind_res_Inl [simp]: "bind_res (Inl e) f = Inl e"
  by (simp add: bind_res_def)

lemma bind_res_Inr_iff:
  "bind_res m f = Inr r \<longleftrightarrow> (\<exists>v. m = Inr v \<and> f v = Inr r)"
  by (cases m) (simp_all add: bind_res_def)

lemma not_Inr_fails:
  assumes "\<And>r. x \<noteq> Inr r"
  shows "\<exists>e. x = Inl e"
  using assms by (cases x) auto

lemma py_value_float_iff [simp]: "py_value (PyFloat d) = Some a \<longleftrightarrow> d = Finite a"
  by (cases d) auto

lemma dmul_zero_Finite [simp]: "dmul (Finite 0) (Finite x) = Finite 0"
  by simp

lemma ddiv_zero_left:
  assumes "d \<noteq> Finite 0" and "d \<noteq> NaN"
  shows "ddiv (Finite 0) d = Finite 0"
  using assms by (cases d) simp_all

lemma py_mul_float_lit:
  assumes "py_mul p (float_lit q) = Inr v"
  shows "\<exists>d. v = PyFloat d"
  using assms by (cases p) (auto simp: float_lit_def bind_res_Inr_iff)

lemma py_mul_by_float:
  assumes "py_mul p (PyFloat (Finite c)) = Inr v" and "py_value v = Some a"
  shows "\<exists>x. as_float p = Inr (Finite x) \<and> round64 (x * c) = Finite a"
proof -
  from assms(1) obtain d where d: "as_float p = Inr d" and v: "v = PyFloat (dmul d (Finite c))"
    by (cases p) (auto simp: bind_res_Inr_iff)
  from assms(2) v show ?thesis
    using d by (cases d) (auto simp: inf_signed_def split: if_splits)
qed

lemma py_add_float_left:
  assumes "as_float p = Inr (Finite y)"
  shows "py_add (PyFloat (Finite x)) p = Inr (PyFloat (round64 (x + y)))"
  using assms by (cases p) simp_all

lemma py_mul_float_right:
  assumes "as_float p = Inr (Finite x)"
  shows "py_mul p (PyFloat (Finite y)) = Inr (PyFloat (round64 (x * y)))"
  using assms by (cases p) simp_all

lemma py_div_by_zero:
  assumes "t = PyInt 0 \<or> t = PyFloat (Finite 0)"
  shows "py_div (PyFloat x) t = Inl ZeroDivisionError"
  using assms by (auto simp: bind_res_def int_to_float_def)

lemma split_constants:
  "float_lit (88 / 100) = PyFloat (Finite (7926335344172073 / 9007199254740992))"
  "float_lit (12 / 100) = PyFloat (Finite (1080863910568919 / 9007199254740992))"
  by (simp_all add: py_eval)

lemma scenario_constants:
  "float_lit (115 / 100) = PyFloat (Finite (2589569785738035 / 2251799813685248))"
  "float_lit (125 / 100) = PyFloat (Finite (5 / 4))"
  "float_lit (135 / 100) = PyFloat (Finite (3039929748475085 / 2251799813685248))"
  by (simp_all add: py_eval)

lemma as_float_value:
  assumes "as_float p = Inr (Finite x)" and "py_value p = Some v"
  shows "\<bar>x - v\<bar> * 2 ^ 53 \<le> \<bar>v\<bar>"
proof (cases p)
  case (PyInt n)
  with assms have r: "round64 (of_int n) = Finite x" and v: "v = of_int n"
    by (auto simp: int_to_float_def split: double.splits)
  show ?thesis
  proof (cases "n = 0")
    case True
    then show ?thesis using r v by simp
  next
    case False
    then have "1 \<le> \<bar>n\<bar>" by simp
    then have "(1::rat) \<le> \<bar>of_int n\<bar>" by (metis of_int_1_le_iff of_int_abs)
    moreover have "(2::rat) powi (- 1022) \<le> 1" by (simp add: power_int_minus_divide)
    ultimately have "2 powi (- 1022) \<le> \<bar>rat_of_int n\<bar>" by linarith
    from round64_rel_error [OF r this] show ?thesis by (simp add: v)
  qed
next
  case (PyFloat d)
  with assms show ?thesis by simp
qed

lemma as_float_bounds:
  assumes "py_value p = Some v" and "0 \<le> v" and "v \<le> 2 ^ 1022"
  shows "\<exists>x. as_float p = Inr (Finite x) \<and> v / 2 \<le> x \<and> x \<le> 2 * v"
proof (cases p)
  case (PyInt n)
  with assms have v: "v = of_int n" by simp
  from round64_upper [OF assms(2,3)] obtain r where r: "round64 v = Finite r" by blast
  show ?thesis
  proof (cases "n = 0")
    case True
    then show ?thesis using PyInt v by (simp add: int_to_float_def)
  next
    case False
    with assms(2) v have "1 \<le> n" by simp
    then have "(1::rat) \<le> v" by (simp add: v)
    moreover have "(2::rat) powi (- 1022) \<le> 1" by (simp add: power_int_minus_divide)
    ultimately have "2 powi (- 1022) \<le> v" by linarith
    from round64_relative [OF r this] assms(2) have "v / 2 \<le> r" "r \<le> 2 * v" by linarith+
    then show ?thesis using PyInt r v by (simp add: int_to_float_def)
  qed
next
  case (PyFloat d)
  with assms show ?thesis by simp
qed

lemma py_add_bounds:
  assumes a: "py_value a = Some va" "0 \<le> va" and b: "py_value b = Some vb" "0 \<le> vb"
    and hi: "va + vb \<le> 2 ^ 1020"
  shows "\<exists>s vs. py_add a b = Inr s \<and> py_value s = Some vs \<and> 0 \<le> vs
           \<and> vs \<le> 4 * va + 4 * vb + 1
           \<and> (2 powi (- 1020) \<le> va + vb \<longrightarrow> va / 4 + vb / 4 \<le> vs)"
proof -
  have big: "(2::rat) ^ 1020 \<le> 2 ^ 1022" "2 * (2::rat) ^ 1020 \<le> 2 ^ 1022" by simp_all
  have small: "(2::rat) powi (- 1020) / 2 = 2 powi (- 1021)"
    "(2::rat) powi (- 1022) \<le> 2 powi (- 1021)"
    by (simp_all add: power_int_minus_divide)
  from a b hi big(1) have va: "va \<le> 2 ^ 1022" and vb: "vb \<le> 2 ^ 1022" by linarith+
  from as_float_bounds [OF a va] obtain x where
    x: "as_float a = Inr (Finite x)" "va / 2 \<le> x" "x \<le> 2 * va" by blast
  from as_float_bounds [OF b vb] obtain y where
    y: "as_float b = Inr (Finite y)" "vb / 2 \<le> y" "y \<le> 2 * vb" by blast
  have q0: "0 \<le> x + y" using x y a b by linarith
  have q1: "x + y \<le> 2 ^ 1022" using x y hi big(2) by linarith
  from round64_upper [OF q0 q1] obtain r where
    r: "round64 (x + y) = Finite r" "0 \<le> r" "r \<le> 2 * (x + y) + 1" by blast
  from r(3) have "r \<le> 2 * x + 2 * y + 1" by simp
  then have up: "r \<le> 4 * va + 4 * vb + 1" using x(3) y(3) by linarith
  have lo: "va / 4 + vb / 4 \<le> r" if "2 powi (- 1020) \<le> va + vb"
  proof -
    have "2 powi (- 1020) / 2 \<le> x + y" using that x(2) y(2) by linarith
    then have "2 powi (- 1022) \<le> x + y" using small by linarith
    from round64_relative(1) [OF r(1) this] have "(x + y) * (999 / 1000) \<le> r" .
    then have "x * (999 / 1000) + y * (999 / 1000) \<le> r" by (simp add: algebra_simps)
    then show ?thesis using x(2) y(2) a(2) b(2) by linarith
  qed
  show ?thesis
  proof (cases "(\<exists>i. a = PyInt i) \<and> (\<exists>j. b = PyInt j)")
    case True
    then obtain i j where "a = PyInt i" "b = PyInt j" by blast
    then show ?thesis using a b by auto
  next
    case False
    then have "py_add a b = Inr (PyFloat (round64 (x + y)))"
      using x(1) y(1) by (cases a; cases b) simp_all
    then show ?thesis using r up lo by auto
  qed
qed

lemma py_mul_bounds:
  assumes a: "py_value a = Some va" "0 \<le> va" "va \<le> 2 ^ 1022"
    and b: "py_value b = Some vb" "0 \<le> vb" "vb \<le> 2 ^ 1022"
    and hi: "va * vb \<le> 2 ^ 1020"
  shows "\<exists>s vs. py_mul a b = Inr s \<and> py_value s = Some vs \<and> 0 \<le> vs
           \<and> vs \<le> 8 * (va * vb) + 1"
proof -
  have big: "4 * (2::rat) ^ 1020 \<le> 2 ^ 1022" by simp
  from as_float_bounds [OF a] obtain x where
    x: "as_float a = Inr (Finite x)" "va / 2 \<le> x" "x \<le> 2 * va" by blast
  from as_float_bounds [OF b] obtain y where
    y: "as_float b = Inr (Finite y)" "vb / 2 \<le> y" "y \<le> 2 * vb" by blast
  have x0: "0 \<le> x" using x(2) a(2) by linarith
  have y0: "0 \<le> y" using y(2) b(2) by linarith
  have q0: "0 \<le> x * y" using x0 y0 by simp
  have "x * y \<le> (2 * va) * (2 * vb)" using x(3) y(3) x0 y0 by (intro mult_mono) simp_all
  then have q4: "x * y \<le> 4 * (va * vb)" by simp
  then have q1: "x * y \<le> 2 ^ 1022" using hi big by linarith
  from round64_upper [OF q0 q1] obtain r where
    r: "round64 (x * y) = Finite r" "0 \<le> r" "r \<le> 2 * (x * y) + 1" by blast
  have up: "r \<le> 8 * (va * vb) + 1" using r(3) q4 by linarith
  show ?thesis
  proof (cases "(\<exists>i. a = PyInt i) \<and> (\<exists>j. b = PyInt j)")
    case True
    then obtain i j where "a = PyInt i" "b = PyInt j" by blast
    then show ?thesis using a b by auto
  next
    case False
    then have "py_mul a b = Inr (PyFloat (round64 (x * y)))"
      using x(1) y(1) by (cases a; cases b) simp_all
    then show ?thesis using r up by auto
  qed
qed

section \<open>Properties of the engine\<close>

subsection \<open>Where the engine fails\<close>

lemma per_year_returns:
  assumes "h \<noteq> 0"
  shows "\<exists>d. py_div (PyInt 12) (PyInt h) = Inr (PyFloat (Finite d))"
proof -
  have "1 \<le> \<bar>h\<bar>" using assms by simp
  then have "(1::rat) \<le> \<bar>of_int h\<bar>" by (metis of_int_1_le_iff of_int_abs)
  then have "\<bar>12 / of_int h :: rat\<bar> \<le> 12" by (simp add: field_simps)
  then have "\<bar>12 / of_int h :: rat\<bar> < 2 ^ 1024 - 2 ^ 970" by simp
  from round64_finite [OF this] obtain r where "round64 (12 / of_int h) = Finite r" ..
  then show ?thesis using assms by simp
qed

lemma total_cost_fails_iff:
  "(\<exists>e. calculate_total_cost square_feet quality_level = Inl e)
     \<longleftrightarrow> quality_level \<notin> {''basic'', ''medium'', ''luxury''}"
  by (cases square_feet)
     (auto simp: calculate_total_cost_def base_costs_aed_def py_eval)

lemma roi_fails_at_period_zero:
  "\<exists>e. calculate_roi_with_split initial_investment final_value total_cost (PyInt 0) = Inl e"
proof (rule not_Inr_fails)
  fix r
  show "calculate_roi_with_split initial_investment final_value total_cost (PyInt 0) \<noteq> Inr r"
    unfolding calculate_roi_with_split_def bind_res_Inr_iff by auto
qed

lemma roi_fails_at_investment_zero:
  assumes "py_add initial_investment total_cost = Inr t"
    and "t = PyInt 0 \<or> t = PyFloat (Finite 0)"
  shows "\<exists>e. calculate_roi_with_split initial_investment final_value total_cost
               holding_period = Inl e"
proof (rule not_Inr_fails, rule notI)
  fix r
  assume "calculate_roi_with_split initial_investment final_value total_cost holding_period
            = Inr r"
  then obtain profit investor ratio where
    i: "py_mul profit (float_lit (88 / 100)) = Inr investor"
    and d: "py_div investor t = Inr ratio"
    unfolding calculate_roi_with_split_def bind_res_Inr_iff assms(1) by auto
  from py_mul_float_lit [OF i] obtain x where "investor = PyFloat x" ..
  with d py_div_by_zero [OF assms(2), of x] show False by simp
qed

lemma roi_returns:
  assumes t: "py_add initial_investment total_cost = Inr t"
    and f: "as_float t = Inr tf" and nz: "tf \<noteq> Finite 0" and h: "h \<noteq> 0"
  shows "\<exists>r. calculate_roi_with_split initial_investment (PyFloat fv) total_cost (PyInt h)
               = Inr r"
proof -
  from per_year_returns [OF h] obtain d where
    d: "py_div (PyInt 12) (PyInt h) = Inr (PyFloat (Finite d))" ..
  have p: "py_sub (PyFloat fv) t = Inr (PyFloat (dsub fv tf))"
    using f by (cases t) simp_all
  have q: "py_div (PyFloat x) t = Inr (PyFloat (ddiv x tf))" for x
    using f nz by (cases t) simp_all
  have m: "py_mul (PyFloat x) (float_lit c) = Inr (PyFloat (dmul x (round64 c)))" for x c
    by (simp add: float_lit_def)
  have n: "py_mul (PyFloat x) (PyFloat y) = Inr (PyFloat (dmul x y))" for x y
    by simp
  have k: "py_mul (PyFloat x) (PyInt 100) = Inr (PyFloat (dmul x (Finite 100)))" for x
    by (simp add: py_eval)
  show ?thesis
    by (simp only: calculate_roi_with_split_def t bind_res_Inr p m q d n k) simp
qed

lemma dubai_fees_returns:
  "\<exists>r. calculate_dubai_fees (PyFloat d) = Inr r"
  by (simp add: calculate_dubai_fees_def py_eval)

lemma projection_value_error_iff:
  "generate_monthly_projection initial_value final_value (PyInt n) = Inl ValueError
     \<longleftrightarrow> n < 0"
proof -
  have "int_to_float i \<noteq> Inl ValueError" for i
    by (simp add: int_to_float_def split: double.splits)
  then have "as_float x \<noteq> Inl ValueError" for x by (cases x) simp_all
  then show ?thesis
    unfolding generate_monthly_projection_def linspace_def
    by (cases "as_float initial_value"; cases "as_float final_value")
       (auto simp: bind_res_def Let_def)
qed

text \<open>
  C1, as it holds on the code. The engine validates nothing itself; a call fails only
  where a Python operation raises. \<open>calculate_total_cost\<close> fails exactly when the
  quality level is not a key of the rate table, whatever the square footage is.
  \<open>calculate_roi_with_split\<close> fails when the holding period is 0 or the total investment
  is 0, and returns for every other integer holding period, negative ones included,
  when the final value is a float and the total investment has a non-zero float value.
  \<open>calculate_dubai_fees\<close> returns for every float, negative ones included.
  \<open>generate_monthly_projection\<close> raises \<^verbatim>\<open>ValueError\<close> exactly when \<open>months < 0\<close>.
\<close>

theorem engine_fails_only_where_python_raises:
  "((\<exists>e. calculate_total_cost square_feet quality_level = Inl e)
      \<longleftrightarrow> quality_level \<notin> {''basic'', ''medium'', ''luxury''})
   \<and> (\<exists>e. calculate_roi_with_split initial_investment final_value total_cost (PyInt 0)
             = Inl e)
   \<and> (py_add initial_investment total_cost = Inr (PyInt 0)
        \<or> py_add initial_investment total_cost = Inr (PyFloat (Finite 0)) \<longrightarrow>
       (\<exists>e. calculate_roi_with_split initial_investment final_value total_cost
               holding_period = Inl e))
   \<and> (py_add initial_investment total_cost = Inr t \<and> as_float t = Inr tf
        \<and> tf \<noteq> Finite 0 \<and> h \<noteq> 0 \<longrightarrow>
       (\<exists>r. calculate_roi_with_split initial_investment (PyFloat fv) total_cost (PyInt h)
               = Inr r))
   \<and> (\<exists>r. calculate_dubai_fees (PyFloat d) = Inr r)
   \<and> (generate_monthly_projection initial_value end_value (PyInt n) = Inl ValueError
        \<longleftrightarrow> n < 0)"
proof (intro conjI impI)
  show "(\<exists>e. calculate_total_cost square_feet quality_level = Inl e)
      \<longleftrightarrow> quality_level \<notin> {''basic'', ''medium'', ''luxury''}"
    by (rule total_cost_fails_iff)
  show "\<exists>e. calculate_roi_with_split initial_investment final_value total_cost (PyInt 0)
             = Inl e"
    by (rule roi_fails_at_period_zero)
  show "\<exists>e. calculate_roi_with_split initial_investment final_value total_cost
               holding_period = Inl e"
    if "py_add initial_investment total_cost = Inr (PyInt 0)
        \<or> py_add initial_investment total_cost = Inr (PyFloat (Finite 0))"
    using that roi_fails_at_investment_zero by blast
  show "\<exists>r. calculate_roi_with_split initial_investment (PyFloat fv) total_cost (PyInt h)
               = Inr r"
    if "py_add initial_investment total_cost = Inr t \<and> as_float t = Inr tf
        \<and> tf \<noteq> Finite 0 \<and> h \<noteq> 0"
    using that roi_returns by blast
  show "\<exists>r. calculate_dubai_fees (PyFloat d) = Inr r"
    by (rule dubai_fees_returns)
  show "generate_monthly_projection initial_value end_value (PyInt n) = Inl ValueError
        \<longleftrightarrow> n < 0"
    by (rule projection_value_error_iff)
qed

theorem engine_fails_only_where_python_raises_witness:
  "calculate_total_cost (PyFloat (Finite (3 / 2))) ''medium'' = Inr (PyFloat (Finite 570))
   \<and> calculate_total_cost (PyInt 1500) ''gold'' = Inl KeyError
   \<and> calculate_roi_with_split (PyInt 1000000) (PyFloat (Finite 1962500)) (PyInt 570000)
        (PyInt 0) = Inl ZeroDivisionError
   \<and> calculate_roi_with_split (PyInt 0) (PyFloat (Finite 1962500)) (PyInt 0)
        (PyInt 12) = Inl ZeroDivisionError
   \<and> (\<exists>r. calculate_roi_with_split (PyInt 1000000) (PyFloat (Finite 1962500))
             (PyInt 570000) (PyInt (- 12)) = Inr r)
   \<and> generate_monthly_projection (PyInt 100) (PyInt 200) (PyInt (- 1)) = Inl ValueError"
proof -
  have t: "py_add (PyInt 1000000) (PyInt 570000) = Inr (PyInt 1570000)" by simp
  have f: "as_float (PyInt 1570000) = Inr (Finite 1570000)" by (simp add: py_eval)
  have z: "py_add (PyInt 0) (PyInt 0) = Inr (PyInt 0)" by simp
  note inst = engine_fails_only_where_python_raises
    [of "PyFloat (Finite (3 / 2))" "''medium''" "PyInt 1000000" "PyFloat (Finite 1962500)"
        "PyInt 570000" "PyInt 12" "PyInt 1570000" "Finite 1570000" "- 12" "Finite 1962500"
        "Finite 0" "PyInt 100" "PyInt 200" "- 1"]
  have 1: "calculate_total_cost (PyFloat (Finite (3 / 2))) ''medium''
             = Inr (PyFloat (Finite 570))"
    by (simp add: calculate_total_cost_def base_costs_aed_def py_eval)
  have 2: "calculate_total_cost (PyInt 1500) ''gold'' = Inl KeyError"
    by (simp add: calculate_total_cost_def base_costs_aed_def)
  have 3: "calculate_roi_with_split (PyInt 1000000) (PyFloat (Finite 1962500))
             (PyInt 570000) (PyInt 0) = Inl ZeroDivisionError"
    by (simp add: calculate_roi_with_split_def py_eval)
  have 4: "calculate_roi_with_split (PyInt 0) (PyFloat (Finite 1962500)) (PyInt 0)
             (PyInt 12) = Inl ZeroDivisionError"
    by (simp add: calculate_roi_with_split_def py_eval)
  have 5: "\<exists>r. calculate_roi_with_split (PyInt 1000000) (PyFloat (Finite 1962500))
             (PyInt 570000) (PyInt (- 12)) = Inr r"
    using inst [THEN conjunct2, THEN conjunct2, THEN conjunct2, THEN conjunct1] t f
    by simp
  have 6: "generate_monthly_projection (PyInt 100) (PyInt 200) (PyInt (- 1))
             = Inl ValueError"
    using inst [THEN conjunct2, THEN conjunct2, THEN conjunct2, THEN conjunct2, THEN conjunct2]
    by simp
  from 1 2 3 4 5 6 show ?thesis by simp
qed

text \<open>
  C1, as the specification states it, fails: none of the four calls below fails,
  though the square footage is negative, the property value is negative, the holding
  period is negative, and the number of months is 0.
\<close>

theorem no_validation_counterexample:
  "calculate_total_cost (PyInt (- 5)) ''basic'' = Inr (PyInt (- 1500))
   \<and> calculate_dubai_fees (PyFloat (Finite (- 100))) =
       Inr \<lparr>dld_fee = PyFloat (Finite (- 4)), broker_fee = PyFloat (Finite (- 2)),
            title_deed_fee = PyInt 430, conveyance_fee = PyInt 7350,
            total_fees = PyFloat (Finite 7774)\<rparr>
   \<and> calculate_roi_with_split (PyInt 1000000) (PyFloat (Finite 1962500)) (PyInt 570000)
        (PyInt (- 12)) =
       Inr \<lparr>total_profit = PyFloat (Finite 392500), investor_profit = PyFloat (Finite 345400),
            company_profit = PyFloat (Finite 47100), annual_roi = PyFloat (Finite (- 22))\<rparr>
   \<and> generate_monthly_projection (PyInt 100) (PyInt 200) (PyInt 0) = Inr []"
proof (intro conjI)
  show "calculate_total_cost (PyInt (- 5)) ''basic'' = Inr (PyInt (- 1500))"
    by (simp add: calculate_total_cost_def base_costs_aed_def)
  show "calculate_dubai_fees (PyFloat (Finite (- 100))) =
       Inr \<lparr>dld_fee = PyFloat (Finite (- 4)), broker_fee = PyFloat (Finite (- 2)),
            title_deed_fee = PyInt 430, conveyance_fee = PyInt 7350,
            total_fees = PyFloat (Finite 7774)\<rparr>"
    by (simp add: calculate_dubai_fees_def py_eval)
  show "calculate_roi_with_split (PyInt 1000000) (PyFloat (Finite 1962500)) (PyInt 570000)
        (PyInt (- 12)) =
       Inr \<lparr>total_profit = PyFloat (Finite 392500), investor_profit = PyFloat (Finite 345400),
            company_profit = PyFloat (Finite 47100), annual_roi = PyFloat (Finite (- 22))\<rparr>"
    by (simp add: calculate_roi_with_split_def py_eval)
  show "generate_monthly_projection (PyInt 100) (PyInt 200) (PyInt 0) = Inr []"
    by (simp add: generate_monthly_projection_def linspace_def arange_def py_eval)
qed

subsection \<open>Dubai fees\<close>

text \<open>
  C6. \<open>calculate_dubai_fees\<close> at 0 returns the fees 0, 0, 430, 7350 and the total 7780;
  and for every property value, the total returned is the sum, taken by Python's
  \<^verbatim>\<open>+\<close> from left to right, of the four fees returned.
\<close>

theorem dubai_fees_zero_and_total:
  "calculate_dubai_fees (PyInt 0) =
     Inr \<lparr>dld_fee = PyFloat (Finite 0), broker_fee = PyFloat (Finite 0),
          title_deed_fee = PyInt 430, conveyance_fee = PyInt 7350,
          total_fees = PyFloat (Finite 7780)\<rparr>
   \<and> (\<forall>property_value r. calculate_dubai_fees property_value = Inr r \<longrightarrow>
         bind_res (bind_res (py_add (dld_fee r) (broker_fee r))
                    (\<lambda>s. py_add s (title_deed_fee r)))
           (\<lambda>s. py_add s (conveyance_fee r)) = Inr (total_fees r))"
proof (intro conjI allI impI)
  show "calculate_dubai_fees (PyInt 0) =
     Inr \<lparr>dld_fee = PyFloat (Finite 0), broker_fee = PyFloat (Finite 0),
          title_deed_fee = PyInt 430, conveyance_fee = PyInt 7350,
          total_fees = PyFloat (Finite 7780)\<rparr>"
    by (simp add: calculate_dubai_fees_def py_eval)
next
  fix property_value r
  assume "calculate_dubai_fees property_value = Inr r"
  then obtain dld broker s1 s2 total where
    "py_add dld broker = Inr s1" "py_add s1 (PyInt 430) = Inr s2"
    "py_add s2 (PyInt 7350) = Inr total"
    "r = \<lparr>dld_fee = dld, broker_fee = broker, title_deed_fee = PyInt 430,
          conveyance_fee = PyInt 7350, total_fees = total\<rparr>"
    unfolding calculate_dubai_fees_def Let_def by (auto simp: bind_res_Inr_iff)
  then show "bind_res (bind_res (py_add (dld_fee r) (broker_fee r))
                    (\<lambda>s. py_add s (title_deed_fee r)))
           (\<lambda>s. py_add s (conveyance_fee r)) = Inr (total_fees r)"
    by (simp add: bind_res_def)
qed

theorem dubai_fees_zero_and_total_witness:
  "calculate_dubai_fees (PyFloat (Finite 1962500)) =
     Inr \<lparr>dld_fee = PyFloat (Finite 78500), broker_fee = PyFloat (Finite 39250),
          title_deed_fee = PyInt 430, conveyance_fee = PyInt 7350,
          total_fees = PyFloat (Finite 125530)\<rparr>
   \<and> bind_res (bind_res (py_add (PyFloat (Finite 78500)) (PyFloat (Finite 39250)))
                (\<lambda>s. py_add s (PyInt 430)))
       (\<lambda>s. py_add s (PyInt 7350)) = Inr (PyFloat (Finite 125530))"
proof -
  have h: "calculate_dubai_fees (PyFloat (Finite 1962500)) =
     Inr \<lparr>dld_fee = PyFloat (Finite 78500), broker_fee = PyFloat (Finite 39250),
          title_deed_fee = PyInt 430, conveyance_fee = PyInt 7350,
          total_fees = PyFloat (Finite 125530)\<rparr>"
    by (simp add: calculate_dubai_fees_def py_eval)
  show ?thesis
    using h dubai_fees_zero_and_total [THEN conjunct2, rule_format, OF h] by simp
qed

subsection \<open>The valuation algorithm\<close>

text \<open>
  C4. \<open>estimate_property_values\<close> returns a result exactly when the Python operations
  below all return: the value increase is \<^verbatim>\<open>total_cost * (1 + market_factor)\<close>, the base
  value is \<^verbatim>\<open>initial_value + value_increase\<close>, and the three estimates are the base value
  times \<^verbatim>\<open>1.15 + market_factor\<close>, \<^verbatim>\<open>1.25 + market_factor\<close> and \<^verbatim>\<open>1.35 + market_factor\<close>.
\<close>

theorem estimate_property_values_algorithm:
  "estimate_property_values initial_value total_cost market_factor = Inr r \<longleftrightarrow>
   (\<exists>growth value_increase base_value m1 m2 m3.
      py_add (PyInt 1) market_factor = Inr growth
    \<and> py_mul total_cost growth = Inr value_increase
    \<and> py_add initial_value value_increase = Inr base_value
    \<and> py_add (float_lit (115 / 100)) market_factor = Inr m1
    \<and> py_mul base_value m1 = Inr (conservative r)
    \<and> py_add (float_lit (125 / 100)) market_factor = Inr m2
    \<and> py_mul base_value m2 = Inr (moderate r)
    \<and> py_add (float_lit (135 / 100)) market_factor = Inr m3
    \<and> py_mul base_value m3 = Inr (optimistic r))"
  unfolding estimate_property_values_def bind_res_Inr_iff
  by (cases r) (simp del: py_add.simps py_mul.simps, blast)

theorem estimate_property_values_algorithm_witness:
  "estimate_property_values (PyInt 1000000) (PyInt 570000) (PyFloat (Finite 0)) =
     Inr \<lparr>conservative = PyFloat (Finite (7754563452927999 / 4294967296)),
          moderate = PyFloat (Finite 1962500), optimistic = PyFloat (Finite 2119500)\<rparr>
   \<and> py_add (PyInt 1) (PyFloat (Finite 0)) = Inr (PyFloat (Finite 1))
   \<and> py_mul (PyInt 570000) (PyFloat (Finite 1)) = Inr (PyFloat (Finite 570000))
   \<and> py_add (PyInt 1000000) (PyFloat (Finite 570000)) = Inr (PyFloat (Finite 1570000))
   \<and> py_add (float_lit (125 / 100)) (PyFloat (Finite 0)) = Inr (PyFloat (Finite (5 / 4)))
   \<and> py_mul (PyFloat (Finite 1570000)) (PyFloat (Finite (5 / 4)))
       = Inr (PyFloat (Finite 1962500))"
proof -
  have g: "py_add (PyInt 1) (PyFloat (Finite 0)) = Inr (PyFloat (Finite 1))"
    by (simp add: py_eval)
  have v: "py_mul (PyInt 570000) (PyFloat (Finite 1)) = Inr (PyFloat (Finite 570000))"
    by (simp add: py_eval)
  have b: "py_add (PyInt 1000000) (PyFloat (Finite 570000)) = Inr (PyFloat (Finite 1570000))"
    by (simp add: py_eval)
  have m1: "py_add (float_lit (115 / 100)) (PyFloat (Finite 0))
              = Inr (PyFloat (Finite (2589569785738035 / 2251799813685248)))"
    by (simp add: py_eval)
  have c: "py_mul (PyFloat (Finite 1570000)) (PyFloat (Finite (2589569785738035 / 2251799813685248)))
              = Inr (PyFloat (Finite (7754563452927999 / 4294967296)))"
    by (simp add: py_eval)
  have m2: "py_add (float_lit (125 / 100)) (PyFloat (Finite 0)) = Inr (PyFloat (Finite (5 / 4)))"
    by (simp add: py_eval)
  have m: "py_mul (PyFloat (Finite 1570000)) (PyFloat (Finite (5 / 4)))
              = Inr (PyFloat (Finite 1962500))"
    by (simp add: py_eval)
  have m3: "py_add (float_lit (135 / 100)) (PyFloat (Finite 0))
              = Inr (PyFloat (Finite (3039929748475085 / 2251799813685248)))"
    by (simp add: py_eval)
  have opt: "py_mul (PyFloat (Finite 1570000)) (PyFloat (Finite (3039929748475085 / 2251799813685248)))
              = Inr (PyFloat (Finite 2119500))"
    by (simp add: py_eval)
  have "estimate_property_values (PyInt 1000000) (PyInt 570000) (PyFloat (Finite 0)) =
     Inr \<lparr>conservative = PyFloat (Finite (7754563452927999 / 4294967296)),
          moderate = PyFloat (Finite 1962500), optimistic = PyFloat (Finite 2119500)\<rparr>"
    unfolding estimate_property_values_algorithm
    using g v b m1 c m2 m opt m3 by (simp del: py_add.simps py_mul.simps)
  then show ?thesis using g v b m2 m by (simp del: py_add.simps py_mul.simps)
qed

subsection \<open>The order of the three estimates\<close>

lemma base_value_bounds:
  assumes iv: "py_value initial_value = Some v" "2 powi (- 1000) \<le> v" "v \<le> 2 ^ 1000"
    and tc: "py_value total_cost = Some c" "0 \<le> c" "c \<le> 2 ^ 1000"
    and mf: "py_value market_factor = Some m" "0 \<le> m" "m \<le> 1"
  shows "\<exists>growth value_increase base_value B.
           py_add (PyInt 1) market_factor = Inr growth
         \<and> py_mul total_cost growth = Inr value_increase
         \<and> py_add initial_value value_increase = Inr base_value
         \<and> as_float base_value = Inr (Finite B)
         \<and> 2 powi (- 1003) \<le> B \<and> B \<le> 2 ^ 1011"
proof -
  define H :: rat where "H = 2 ^ 1000"
  define L :: rat where "L = 2 powi (- 1003)"
  have H: "1 \<le> H" "(2::rat) ^ 1020 = 1048576 * H" "(2::rat) ^ 1022 = 4194304 * H"
    "(2::rat) ^ 1011 = 2048 * H"
    by (simp_all add: H_def)
  have L: "0 < L" "(2::rat) powi (- 1000) = 8 * L" "(2::rat) powi (- 1020) \<le> 8 * L"
    by (simp_all add: L_def power_int_minus_divide)
  have v1: "8 * L \<le> v" using iv(2) unfolding L(2) .
  have v2: "v \<le> H" using iv(3) unfolding H_def .
  note v = v1 v2
  have c: "c \<le> H" using tc(3) unfolding H_def by assumption
  have one: "py_value (PyInt 1) = Some 1" "(0::rat) \<le> 1" by simp_all
  have "1 + m \<le> 2 ^ 1020" using mf(3) H(1) unfolding H(2) by linarith
  from py_add_bounds [OF one mf(1,2) this] obtain growth g where
    g: "py_add (PyInt 1) market_factor = Inr growth" "py_value growth = Some g"
      "0 \<le> g" "g \<le> 4 * 1 + 4 * m + 1"
    by blast
  have g9: "g \<le> 9" using g(4) mf(3) by linarith
  have cg: "c * g \<le> H * 9" using c g9 g(3) tc(2) by (intro mult_mono) simp_all
  have c22: "c \<le> 2 ^ 1022" using c H(1) unfolding H(3) by linarith
  have g22: "g \<le> 2 ^ 1022" using g9 H(1) unfolding H(3) by linarith
  have cg20: "c * g \<le> 2 ^ 1020" using cg H(1) unfolding H(2) by linarith
  from py_mul_bounds [OF tc(1,2) c22 g(2,3) g22 cg20] obtain value_increase w where
    w: "py_mul total_cost growth = Inr value_increase" "py_value value_increase = Some w"
      "0 \<le> w" "w \<le> 8 * (c * g) + 1"
    by blast
  have w73: "w \<le> 73 * H" using w(4) cg H(1) by linarith
  have v0: "0 \<le> v" using v(1) L(1) by linarith
  have "v + w \<le> 2 ^ 1020" using v(2) w73 H(1) unfolding H(2) by linarith
  from py_add_bounds [OF iv(1) v0 w(2,3) this] obtain base_value bv where
    b: "py_add initial_value value_increase = Inr base_value" "py_value base_value = Some bv"
      "0 \<le> bv" "bv \<le> 4 * v + 4 * w + 1"
      "2 powi (- 1020) \<le> v + w \<longrightarrow> v / 4 + w / 4 \<le> bv"
    by blast
  have "2 powi (- 1020) \<le> v + w" using v(1) w(3) L(3) by linarith
  with b(5) have bl: "2 * L \<le> bv" using v(1) w(3) by linarith
  have bh: "bv \<le> 1024 * H" using b(4) v(2) w73 H(1) by linarith
  then have "bv \<le> 2 ^ 1022" using H(1) unfolding H(3) by linarith
  from as_float_bounds [OF b(2,3) this] obtain B where
    B: "as_float base_value = Inr (Finite B)" "bv / 2 \<le> B" "B \<le> 2 * bv"
    by blast
  have "L \<le> B" using B(2) bl by linarith
  then have B1: "2 powi (- 1003) \<le> B" unfolding L_def .
  have "B \<le> 2048 * H" using B(3) bh by linarith
  then have B2: "B \<le> 2 ^ 1011" unfolding H(4) .
  from g(1) w(1) b(1) B(1) B1 B2 show ?thesis by blast
qed

lemma scenario_products_ordered:
  assumes B: "2 powi (- 1003) \<le> B" "B \<le> 2 ^ 1011"
    and \<mu>: "0 \<le> \<mu>" "\<mu> \<le> 2"
    and c: "1 \<le> c1" "c1 + 1 / 20 \<le> c2" "c2 \<le> 2"
  shows "\<exists>A1 A2 P1 P2. round64 (c1 + \<mu>) = Finite A1 \<and> round64 (c2 + \<mu>) = Finite A2
           \<and> round64 (B * A1) = Finite P1 \<and> round64 (B * A2) = Finite P2 \<and> P1 < P2"
proof -
  define H :: rat where "H = 2 ^ 1011"
  define L :: rat where "L = 2 powi (- 1003)"
  have H: "1 \<le> H" "(2::rat) ^ 1022 = 2048 * H" by (simp_all add: H_def)
  have L: "0 < L" "(2::rat) powi (- 1022) \<le> L / 2" "(2::rat) powi (- 1022) \<le> 1"
    by (simp_all add: L_def power_int_minus_divide)
  have B1: "L \<le> B" using B(1) unfolding L_def .
  have B2: "B \<le> H" using B(2) unfolding H_def .
  have B3: "0 < B" using B1 L(1) by linarith
  note B' = B1 B2 B3
  have s1: "0 \<le> c1 + \<mu>" "c1 + \<mu> \<le> 2 ^ 1022" "2 powi (- 1022) \<le> c1 + \<mu>"
    using c \<mu> H(1) L(3) unfolding H(2) by linarith+
  have s2: "0 \<le> c2 + \<mu>" "c2 + \<mu> \<le> 2 ^ 1022" "2 powi (- 1022) \<le> c2 + \<mu>"
    using c \<mu> H(1) L(3) unfolding H(2) by linarith+
  from round64_upper [OF s1(1,2)] obtain A1 where A1: "round64 (c1 + \<mu>) = Finite A1" by blast
  from round64_upper [OF s2(1,2)] obtain A2 where A2: "round64 (c2 + \<mu>) = Finite A2" by blast
  have "(c1 + \<mu>) * (999 / 1000) \<le> A1" "A1 \<le> (c1 + \<mu>) * (1001 / 1000)"
    using round64_relative [OF A1 s1(3)] by simp_all
  then have a1: "c1 * (999 / 1000) + \<mu> * (999 / 1000) \<le> A1"
    "A1 \<le> c1 * (1001 / 1000) + \<mu> * (1001 / 1000)"
    by (simp_all add: algebra_simps)
  have "(c2 + \<mu>) * (999 / 1000) \<le> A2" "A2 \<le> (c2 + \<mu>) * (1001 / 1000)"
    using round64_relative [OF A2 s2(3)] by simp_all
  then have a2: "c2 * (999 / 1000) + \<mu> * (999 / 1000) \<le> A2"
    "A2 \<le> c2 * (1001 / 1000) + \<mu> * (1001 / 1000)"
    by (simp_all add: algebra_simps)
  have r1: "1 / 2 \<le> A1" "A1 \<le> 5" using a1 c \<mu> by linarith+
  have r2: "1 / 2 \<le> A2" "A2 \<le> 5" using a2 c \<mu> by linarith+
  have gap: "A1 * (1001 / 1000) < A2 * (999 / 1000)" using a1(2) a2(1) c \<mu> by linarith
  have q: "0 \<le> B * A" "B * A \<le> 2 ^ 1022" "2 powi (- 1022) \<le> B * A"
    if A: "1 / 2 \<le> A" "A \<le> 5" for A
  proof -
    show "0 \<le> B * A" using B'(3) A(1) by simp
    have "B * A \<le> H * 5" using B'(2,3) A by (intro mult_mono) simp_all
    then show "B * A \<le> 2 ^ 1022" using H(1) unfolding H(2) by linarith
    have "L * (1 / 2) \<le> B * A" using B'(1) A(1) L(1) by (intro mult_mono) simp_all
    then show "2 powi (- 1022) \<le> B * A" using L(2) by simp
  qed
  from round64_upper [OF q(1,2) [OF r1]] obtain P1 where P1: "round64 (B * A1) = Finite P1"
    by blast
  from round64_upper [OF q(1,2) [OF r2]] obtain P2 where P2: "round64 (B * A2) = Finite P2"
    by blast
  have "P1 \<le> B * A1 * (1001 / 1000)" by (rule round64_relative(2) [OF P1 q(3) [OF r1]])
  also have "\<dots> = B * (A1 * (1001 / 1000))" by simp
  also have "\<dots> < B * (A2 * (999 / 1000))" using gap B'(3) by (rule mult_strict_left_mono)
  also have "\<dots> = B * A2 * (999 / 1000)" by simp
  also have "\<dots> \<le> P2" by (rule round64_relative(1) [OF P2 q(3) [OF r2]])
  finally have "P1 < P2" .
  with A1 A2 P1 P2 show ?thesis by blast
qed

text \<open>
  C2, as it holds on the code. For an initial value between \<open>2\<^sup>-\<^sup>1\<^sup>0\<^sup>0\<^sup>0\<close> and \<open>2\<^sup>1\<^sup>0\<^sup>0\<^sup>0\<close>
  (positive, that is, and neither so small that the products underflow nor so large
  that they overflow), a total cost between 0 and \<open>2\<^sup>1\<^sup>0\<^sup>0\<^sup>0\<close> and a market factor in
  \<open>[0, 1]\<close>, \<open>estimate_property_values\<close> returns, with
  \<open>conservative < moderate < optimistic\<close> under Python's \<^verbatim>\<open><\<close>.
\<close>

theorem estimates_strictly_ordered:
  assumes iv: "py_value initial_value = Some v" "2 powi (- 1000) \<le> v" "v \<le> 2 ^ 1000"
    and tc: "py_value total_cost = Some c" "0 \<le> c" "c \<le> 2 ^ 1000"
    and mf: "py_value market_factor = Some m" "0 \<le> m" "m \<le> 1"
  shows "\<exists>r. estimate_property_values initial_value total_cost market_factor = Inr r
           \<and> py_less (conservative r) (moderate r) \<and> py_less (moderate r) (optimistic r)"
proof -
  from base_value_bounds [OF iv tc mf] obtain growth value_increase base_value B where
    chain: "py_add (PyInt 1) market_factor = Inr growth"
      "py_mul total_cost growth = Inr value_increase"
      "py_add initial_value value_increase = Inr base_value"
    and B: "as_float base_value = Inr (Finite B)" "2 powi (- 1003) \<le> B" "B \<le> 2 ^ 1011"
    by blast
  have "m \<le> 2 ^ 1022" using mf(3) by (rule order_trans) simp
  from as_float_bounds [OF mf(1,2) this] obtain \<mu> where
    \<mu>: "as_float market_factor = Inr (Finite \<mu>)" "0 \<le> \<mu>" "\<mu> \<le> 2"
    using mf(2,3) by fastforce
  from scenario_products_ordered [OF B(2,3) \<mu>(2,3),
      of "2589569785738035 / 2251799813685248" "5 / 4"]
  obtain A1 A2 P1 P2 where
    lo: "round64 (2589569785738035 / 2251799813685248 + \<mu>) = Finite A1"
      "round64 (5 / 4 + \<mu>) = Finite A2"
      "round64 (B * A1) = Finite P1" "round64 (B * A2) = Finite P2" "P1 < P2"
    by auto
  from scenario_products_ordered [OF B(2,3) \<mu>(2,3),
      of "5 / 4" "3039929748475085 / 2251799813685248"]
  obtain A2' A3 P2' P3 where
    hi: "round64 (5 / 4 + \<mu>) = Finite A2'"
      "round64 (3039929748475085 / 2251799813685248 + \<mu>) = Finite A3"
      "round64 (B * A2') = Finite P2'" "round64 (B * A3) = Finite P3" "P2' < P3"
    by auto
  from lo(2) hi(1) have "A2' = A2" by simp
  with lo(4) hi(3) have "P2' = P2" by simp
  with hi(5) have "P2 < P3" by simp
  have "estimate_property_values initial_value total_cost market_factor =
          Inr \<lparr>conservative = PyFloat (Finite P1), moderate = PyFloat (Finite P2),
               optimistic = PyFloat (Finite P3)\<rparr>"
    unfolding estimate_property_values_def chain bind_res_Inr scenario_constants
      py_add_float_left [OF \<mu>(1)] lo(1,2) hi(2) py_mul_float_right [OF B(1)] lo(3,4) hi(4)
    by simp
  then show ?thesis using \<open>P1 < P2\<close> \<open>P2 < P3\<close> by simp
qed

theorem estimates_strictly_ordered_witness:
  "py_value (PyInt 1000000) = Some 1000000 \<and> 2 powi (- 1000) \<le> (1000000::rat)
   \<and> (1000000::rat) \<le> 2 ^ 1000
   \<and> py_value (PyInt 570000) = Some 570000 \<and> (0::rat) \<le> 570000
   \<and> (570000::rat) \<le> 2 ^ 1000
   \<and> py_value (PyFloat (Finite 0)) = Some 0 \<and> (0::rat) \<le> 0 \<and> (0::rat) \<le> 1
   \<and> (\<exists>r. estimate_property_values (PyInt 1000000) (PyInt 570000) (PyFloat (Finite 0)) = Inr r
         \<and> py_less (conservative r) (moderate r) \<and> py_less (moderate r) (optimistic r))"
proof -
  have iv: "py_value (PyInt 1000000) = Some 1000000" "2 powi (- 1000) \<le> (1000000::rat)"
    "(1000000::rat) \<le> 2 ^ 1000"
    by (simp_all add: power_int_minus_divide)
  have tc: "py_value (PyInt 570000) = Some 570000" "(0::rat) \<le> 570000"
    "(570000::rat) \<le> 2 ^ 1000"
    by simp_all
  have mf: "py_value (PyFloat (Finite 0)) = Some 0" "(0::rat) \<le> 0" "(0::rat) \<le> 1"
    by simp_all
  from estimates_strictly_ordered [OF iv tc mf] iv tc mf show ?thesis by blast
qed

text \<open>
  C2, as the specification states it, fails: with an initial value of 0 and a total
  cost of 0 the three estimates are all 0.0, and with a negative initial value their
  order is reversed.
\<close>

theorem estimates_order_counterexample:
  "estimate_property_values (PyInt 0) (PyInt 0) (PyInt 0) =
     Inr \<lparr>conservative = PyFloat (Finite 0), moderate = PyFloat (Finite 0),
          optimistic = PyFloat (Finite 0)\<rparr>
   \<and> \<not> py_less (PyFloat (Finite 0)) (PyFloat (Finite 0))
   \<and> estimate_property_values (PyInt (- 1000000)) (PyInt 0) (PyInt 0) =
     Inr \<lparr>conservative = PyFloat (Finite (- 1150000)),
          moderate = PyFloat (Finite (- 1250000)),
          optimistic = PyFloat (Finite (- 1350000))\<rparr>
   \<and> \<not> py_less (PyFloat (Finite (- 1150000)))
         (PyFloat (Finite (- 1250000)))"
  by (simp add: estimate_property_values_def py_eval)

subsection \<open>The spacing of the three estimates\<close>

lemma scenario_error:
  assumes B: "2 powi (- 1000) \<le> \<bar>B\<bar>" "\<bar>B\<bar> \<le> 2 ^ 1000"
    and \<mu>: "0 \<le> \<mu>" "\<mu> \<le> 1"
    and c: "1 \<le> c" "c \<le> 7 / 5"
  shows "\<exists>A P. round64 (c + \<mu>) = Finite A \<and> round64 (B * A) = Finite P
           \<and> \<bar>P - (B * c + B * \<mu>)\<bar> \<le> 6 * \<bar>B\<bar> / 2 ^ 53"
proof -
  define t where "t = \<bar>B\<bar>"
  define H :: rat where "H = 2 ^ 1000"
  define L :: rat where "L = 2 powi (- 1000)"
  have H: "1 \<le> H" "(2::rat) ^ 1022 = 4194304 * H"
    "(2::rat) ^ 1024 - 2 ^ 970 = 16777216 * H - H / 1073741824"
    by (simp_all add: H_def)
  have L: "0 < L" "(2::rat) powi (- 1022) = L / 4194304" "(2::rat) powi (- 1022) \<le> 1"
    by (simp_all add: L_def power_int_minus_divide)
  have t1: "L \<le> t" using B(1) unfolding L_def t_def .
  have t2: "t \<le> H" using B(2) unfolding H_def t_def .
  have t0: "0 < t" using t1 L(1) by linarith
  have s: "0 \<le> c + \<mu>" "c + \<mu> \<le> 2 ^ 1022" "2 powi (- 1022) \<le> c + \<mu>"
    using c \<mu> H(1) L(3) unfolding H(2) by linarith+
  from round64_upper [OF s(1,2)] obtain A where A: "round64 (c + \<mu>) = Finite A" by blast
  have "(c + \<mu>) * (999 / 1000) \<le> A" "A \<le> (c + \<mu>) * (1001 / 1000)"
    using round64_relative [OF A s(3)] by simp_all
  then have "c * (999 / 1000) + \<mu> * (999 / 1000) \<le> A"
    "A \<le> c * (1001 / 1000) + \<mu> * (1001 / 1000)"
    by (simp_all add: algebra_simps)
  then have Ar: "999 / 1000 \<le> A" "A \<le> 3" using c \<mu> by linarith+
  have "2 powi (- 1022) \<le> \<bar>c + \<mu>\<bar>" using s(1,3) by simp
  from round64_rel_error [OF A this] have "\<bar>A - (c + \<mu>)\<bar> * 2 ^ 53 \<le> c + \<mu>"
    using s(1) by simp
  then have "\<bar>A - (c + \<mu>)\<bar> * 2 ^ 53 \<le> 3" using c \<mu> by linarith
  then have As: "\<bar>A - (c + \<mu>)\<bar> \<le> 3 / 2 ^ 53" by (simp add: field_simps)
  have q: "\<bar>B * A\<bar> = t * A" using Ar(1) by (simp add: abs_mult t_def)
  have "t * A \<le> H * 3" using t2 Ar t0 by (intro mult_mono) simp_all
  then have qh: "t * A \<le> 3 * H" by simp
  have "L * (999 / 1000) \<le> t * A" using t1 Ar(1) L(1) by (intro mult_mono) simp_all
  then have ql: "2 powi (- 1022) \<le> t * A" using L(1) unfolding L(2) by linarith
  have "t * A < 16777216 * H - H / 1073741824" using qh H(1) by linarith
  then have "\<bar>B * A\<bar> < 2 ^ 1024 - 2 ^ 970" unfolding q H(3) .
  from round64_finite [OF this] obtain P where P: "round64 (B * A) = Finite P" ..
  have "2 powi (- 1022) \<le> \<bar>B * A\<bar>" using ql unfolding q .
  from round64_rel_error [OF P this] have "\<bar>P - B * A\<bar> * 2 ^ 53 \<le> t * A" unfolding q .
  then have "\<bar>P - B * A\<bar> * 2 ^ 53 \<le> 3 * t" using qh t2 Ar(2) t0
    by (metis mult.commute mult_left_mono order_trans less_imp_le)
  then have e1: "\<bar>P - B * A\<bar> \<le> 3 * t / 2 ^ 53" by (simp add: field_simps)
  have "\<bar>B * A - B * (c + \<mu>)\<bar> = t * \<bar>A - (c + \<mu>)\<bar>"
    by (simp add: t_def abs_mult flip: right_diff_distrib)
  also have "\<dots> \<le> t * (3 / 2 ^ 53)" using As t0 by (intro mult_left_mono) simp_all
  finally have e2: "\<bar>B * A - B * (c + \<mu>)\<bar> \<le> 3 * t / 2 ^ 53" by simp
  have "P - (B * c + B * \<mu>) = (P - B * A) + (B * A - B * (c + \<mu>))"
    by (simp add: algebra_simps)
  then have "\<bar>P - (B * c + B * \<mu>)\<bar> \<le> \<bar>P - B * A\<bar> + \<bar>B * A - B * (c + \<mu>)\<bar>"
    by (simp only: abs_triangle_ineq)
  also have "\<dots> \<le> 3 * t / 2 ^ 53 + 3 * t / 2 ^ 53" by (rule add_mono [OF e1 e2])
  also have "\<dots> = 6 * t / 2 ^ 53" by simp
  finally have "\<bar>P - (B * c + B * \<mu>)\<bar> \<le> 6 * \<bar>B\<bar> / 2 ^ 53" unfolding t_def .
  with A P show ?thesis by blast
qed

lemma abs_le_two_sided:
  fixes x :: rat
  shows "\<bar>x\<bar> \<le> e \<longleftrightarrow> - e \<le> x \<and> x \<le> e"
  by (auto simp: abs_le_iff)

text \<open>
  C9, as it holds on the code. When the base value that the code computes has a float
  value \<open>B\<close> of magnitude between \<open>2\<^sup>-\<^sup>1\<^sup>0\<^sup>0\<^sup>0\<close> and \<open>2\<^sup>1\<^sup>0\<^sup>0\<^sup>0\<close> and the market factor is in
  \<open>[0, 1]\<close>, the three estimates are equally spaced up to rounding: the two differences
  \<open>moderate - conservative\<close> and \<open>optimistic - moderate\<close>, taken exactly, differ by at
  most \<open>\<bar>B\<bar> / 2\<^sup>4\<^sup>8\<close>, and each is within \<open>\<bar>B\<bar> / 2\<^sup>4\<^sup>9\<close> of \<open>B / 10\<close>.
\<close>

theorem estimates_equally_spaced_up_to_rounding:
  assumes chain: "py_add (PyInt 1) market_factor = Inr growth"
      "py_mul total_cost growth = Inr value_increase"
      "py_add initial_value value_increase = Inr base_value"
    and B: "as_float base_value = Inr (Finite B)"
      "2 powi (- 1000) \<le> \<bar>B\<bar>" "\<bar>B\<bar> \<le> 2 ^ 1000"
    and \<mu>: "as_float market_factor = Inr (Finite \<mu>)" "0 \<le> \<mu>" "\<mu> \<le> 1"
  shows "\<exists>c m opt.
           estimate_property_values initial_value total_cost market_factor =
             Inr \<lparr>conservative = PyFloat (Finite c), moderate = PyFloat (Finite m),
                  optimistic = PyFloat (Finite opt)\<rparr>
         \<and> \<bar>(opt - m) - (m - c)\<bar> \<le> \<bar>B\<bar> / 2 ^ 48
         \<and> \<bar>(m - c) - B / 10\<bar> \<le> \<bar>B\<bar> / 2 ^ 49
         \<and> \<bar>(opt - m) - B / 10\<bar> \<le> \<bar>B\<bar> / 2 ^ 49"
proof -
  define t where "t = \<bar>B\<bar>"
  define E where "E = 6 * t / 2 ^ 53"
  define w where "w = B * \<mu>"
  have t: "0 \<le> t" "- t \<le> B" "B \<le> t" by (simp_all add: t_def)
  from scenario_error [OF B(2,3) \<mu>(2,3), of "2589569785738035 / 2251799813685248"]
  obtain A1 c where
    1: "round64 (2589569785738035 / 2251799813685248 + \<mu>) = Finite A1"
      "round64 (B * A1) = Finite c"
      "\<bar>c - (B * (2589569785738035 / 2251799813685248) + B * \<mu>)\<bar> \<le> 6 * \<bar>B\<bar> / 2 ^ 53"
    by auto
  from scenario_error [OF B(2,3) \<mu>(2,3), of "5 / 4"]
  obtain A2 m where
    2: "round64 (5 / 4 + \<mu>) = Finite A2" "round64 (B * A2) = Finite m"
      "\<bar>m - (B * (5 / 4) + B * \<mu>)\<bar> \<le> 6 * \<bar>B\<bar> / 2 ^ 53"
    by auto
  from scenario_error [OF B(2,3) \<mu>(2,3), of "3039929748475085 / 2251799813685248"]
  obtain A3 opt where
    3: "round64 (3039929748475085 / 2251799813685248 + \<mu>) = Finite A3"
      "round64 (B * A3) = Finite opt"
      "\<bar>opt - (B * (3039929748475085 / 2251799813685248) + B * \<mu>)\<bar> \<le> 6 * \<bar>B\<bar> / 2 ^ 53"
    by auto
  have ret: "estimate_property_values initial_value total_cost market_factor =
          Inr \<lparr>conservative = PyFloat (Finite c), moderate = PyFloat (Finite m),
               optimistic = PyFloat (Finite opt)\<rparr>"
    unfolding estimate_property_values_def chain bind_res_Inr scenario_constants
      py_add_float_left [OF \<mu>(1)] 1(1) 2(1) 3(1) py_mul_float_right [OF B(1)] 1(2) 2(2) 3(2)
    by simp
  have ec: "- E \<le> c - B * (2589569785738035 / 2251799813685248) - w"
    "c - B * (2589569785738035 / 2251799813685248) - w \<le> E"
    using 1(3) unfolding abs_le_two_sided E_def t_def w_def by linarith+
  have em: "- E \<le> m - B * (5 / 4) - w" "m - B * (5 / 4) - w \<le> E"
    using 2(3) unfolding abs_le_two_sided E_def t_def w_def by linarith+
  have eo: "- E \<le> opt - B * (3039929748475085 / 2251799813685248) - w"
    "opt - B * (3039929748475085 / 2251799813685248) - w \<le> E"
    using 3(3) unfolding abs_le_two_sided E_def t_def w_def by linarith+
  have E4: "4 * E \<le> t / 2 ^ 48" using t(1) by (simp add: E_def field_simps)
  have E2: "2 * E + t / 2 ^ 53 \<le> t / 2 ^ 49" using t(1) by (simp add: E_def field_simps)
  have "\<bar>B / 11258999068426240\<bar> = t / 11258999068426240" by (simp add: t_def)
  also have "\<dots> \<le> t / 2 ^ 53" using t(1) by (intro divide_left_mono) simp_all
  finally have "\<bar>B / 11258999068426240\<bar> \<le> t / 2 ^ 53" .
  then have d: "- (t / 2 ^ 53) \<le> B / 11258999068426240" "B / 11258999068426240 \<le> t / 2 ^ 53"
    unfolding abs_le_two_sided by simp_all
  have d1: "B * (5 / 4) - B * (2589569785738035 / 2251799813685248) - B / 10
              = B / 11258999068426240"
    by simp
  have d2: "B * (3039929748475085 / 2251799813685248) - B * (5 / 4) - B / 10
              = B / 11258999068426240"
    by simp
  have mid: "\<bar>(opt - m) - (m - c)\<bar> \<le> t / 2 ^ 48"
    unfolding abs_le_two_sided using ec em eo E4 by (intro conjI) linarith+
  have lo: "\<bar>(m - c) - B / 10\<bar> \<le> t / 2 ^ 49"
    unfolding abs_le_two_sided using ec em d [folded d1] E2 by (intro conjI) linarith+
  have hi: "\<bar>(opt - m) - B / 10\<bar> \<le> t / 2 ^ 49"
    unfolding abs_le_two_sided using em eo d [folded d2] E2 by (intro conjI) linarith+
  from ret mid lo hi show ?thesis unfolding t_def by blast
qed

theorem estimates_equally_spaced_up_to_rounding_witness:
  "py_add (PyInt 1) (PyFloat (Finite 0)) = Inr (PyFloat (Finite 1))
   \<and> py_mul (PyInt 570000) (PyFloat (Finite 1)) = Inr (PyFloat (Finite 570000))
   \<and> py_add (PyInt 1000000) (PyFloat (Finite 570000)) = Inr (PyFloat (Finite 1570000))
   \<and> as_float (PyFloat (Finite 1570000)) = Inr (Finite 1570000)
   \<and> 2 powi (- 1000) \<le> \<bar>1570000 :: rat\<bar> \<and> \<bar>1570000 :: rat\<bar> \<le> 2 ^ 1000
   \<and> as_float (PyFloat (Finite 0)) = Inr (Finite 0) \<and> (0::rat) \<le> 0 \<and> (0::rat) \<le> 1
   \<and> (\<exists>c m opt.
         estimate_property_values (PyInt 1000000) (PyInt 570000) (PyFloat (Finite 0)) =
           Inr \<lparr>conservative = PyFloat (Finite c), moderate = PyFloat (Finite m),
                optimistic = PyFloat (Finite opt)\<rparr>
       \<and> \<bar>(opt - m) - (m - c)\<bar> \<le> \<bar>1570000\<bar> / 2 ^ 48
       \<and> \<bar>(m - c) - 1570000 / 10\<bar> \<le> \<bar>1570000\<bar> / 2 ^ 49
       \<and> \<bar>(opt - m) - 1570000 / 10\<bar> \<le> \<bar>1570000\<bar> / 2 ^ 49)"
proof -
  have chain: "py_add (PyInt 1) (PyFloat (Finite 0)) = Inr (PyFloat (Finite 1))"
    "py_mul (PyInt 570000) (PyFloat (Finite 1)) = Inr (PyFloat (Finite 570000))"
    "py_add (PyInt 1000000) (PyFloat (Finite 570000)) = Inr (PyFloat (Finite 1570000))"
    by (simp_all add: py_eval)
  have B: "as_float (PyFloat (Finite 1570000)) = Inr (Finite 1570000)"
    "2 powi (- 1000) \<le> \<bar>1570000 :: rat\<bar>" "\<bar>1570000 :: rat\<bar> \<le> 2 ^ 1000"
    by (simp_all add: power_int_minus_divide)
  have \<mu>: "as_float (PyFloat (Finite 0)) = Inr (Finite 0)" "(0::rat) \<le> 0" "(0::rat) \<le> 1"
    by simp_all
  from estimates_equally_spaced_up_to_rounding [OF chain B \<mu>] chain B \<mu>
  show ?thesis by blast
qed

text \<open>
  C9, as stated, fails at the application's default inputs (property value 1000000,
  1500 square feet of the medium package, no market appreciation): the estimates are
  1805499.9999999998, 1962500.0 and 2119500.0, and the two differences are not equal,
  neither by Python's \<^verbatim>\<open>-\<close> nor exactly.
\<close>

theorem estimates_spacing_counterexample:
  "estimate_property_values (PyInt 1000000) (PyInt 570000) (PyFloat (Finite 0)) =
     Inr \<lparr>conservative = PyFloat (Finite (7754563452927999 / 4294967296)),
          moderate = PyFloat (Finite 1962500), optimistic = PyFloat (Finite 2119500)\<rparr>
   \<and> py_sub (PyFloat (Finite 1962500)) (PyFloat (Finite (7754563452927999 / 4294967296)))
       = Inr (PyFloat (Finite (674309865472001 / 4294967296)))
   \<and> py_sub (PyFloat (Finite 2119500)) (PyFloat (Finite 1962500))
       = Inr (PyFloat (Finite 157000))
   \<and> PyFloat (Finite (674309865472001 / 4294967296)) \<noteq> PyFloat (Finite 157000)
   \<and> (1962500 - 7754563452927999 / 4294967296 :: rat) \<noteq> 2119500 - 1962500"
  by (simp add: estimate_property_values_def py_eval)

subsection \<open>The profit split\<close>

lemma split_sum_error:
  assumes a: "round64 (x * A) = Finite a" and b: "round64 (x * B) = Finite b"
    and AB: "A + B = 1" "0 \<le> A" "0 \<le> B"
  shows "\<bar>a + b - x\<bar> \<le> \<bar>x\<bar> / 2 ^ 53 + 2 powi (- 1074)"
proof -
  define e :: rat where "e = 2 powi (- 1075)"
  have e: "2 * e = 2 powi (- 1074)"
    by (simp add: e_def power_int_minus_divide)
  have ea: "\<bar>a - x * A\<bar> \<le> \<bar>x * A\<bar> / 2 ^ 53 + e"
    unfolding e_def by (rule round64_gen_error [OF a])
  have eb: "\<bar>b - x * B\<bar> \<le> \<bar>x * B\<bar> / 2 ^ 53 + e"
    unfolding e_def by (rule round64_gen_error [OF b])
  have sum: "\<bar>x * A\<bar> + \<bar>x * B\<bar> = \<bar>x\<bar>"
  proof -
    have "\<bar>x * A\<bar> + \<bar>x * B\<bar> = \<bar>x\<bar> * (A + B)"
      using AB(2,3) by (simp add: abs_mult algebra_simps)
    then show ?thesis by (simp add: AB(1))
  qed
  have eq: "a + b - x = (a - x * A) + (b - x * B)"
  proof -
    have "x * A + x * B = x * (A + B)" by (simp add: algebra_simps)
    then have "x * A + x * B = x" by (simp add: AB(1))
    then show ?thesis by linarith
  qed
  have "\<bar>a + b - x\<bar> \<le> \<bar>a - x * A\<bar> + \<bar>b - x * B\<bar>"
    unfolding eq by (rule abs_triangle_ineq)
  also have "\<dots> \<le> (\<bar>x * A\<bar> / 2 ^ 53 + e) + (\<bar>x * B\<bar> / 2 ^ 53 + e)"
    by (rule add_mono [OF ea eb])
  also have "\<dots> = (\<bar>x * A\<bar> + \<bar>x * B\<bar>) / 2 ^ 53 + 2 * e"
    by (simp add: add_divide_distrib)
  also have "\<dots> = \<bar>x\<bar> / 2 ^ 53 + 2 powi (- 1074)"
    by (simp only: sum e)
  finally show ?thesis .
qed

text \<open>
  C3, as it holds on the code. Whenever \<open>calculate_roi_with_split\<close> returns finite
  numbers, the investor's and the company's profit add up to the total profit up to
  rounding: their exact sum differs from the total profit \<open>p\<close> by at most
  \<open>\<bar>p\<bar> / 2\<^sup>5\<^sup>1 + 2\<^sup>-\<^sup>1\<^sup>0\<^sup>7\<^sup>4\<close>. (The two literals \<^verbatim>\<open>0.88\<close> and \<^verbatim>\<open>0.12\<close> add up to
  exactly 1 as doubles; each product is rounded.)
\<close>

theorem profit_split_sum_bound:
  assumes ret: "calculate_roi_with_split initial_investment final_value total_cost
                  holding_period = Inr r"
    and p: "py_value (total_profit r) = Some p"
    and a: "py_value (investor_profit r) = Some a"
    and b: "py_value (company_profit r) = Some b"
  shows "\<bar>a + b - p\<bar> \<le> \<bar>p\<bar> / 2 ^ 51 + 2 powi (- 1074)"
proof -
  from ret obtain profit investor company where
    i: "py_mul profit (float_lit (88 / 100)) = Inr investor"
    and c: "py_mul profit (float_lit (12 / 100)) = Inr company"
    and r: "total_profit r = profit" "investor_profit r = investor" "company_profit r = company"
    unfolding calculate_roi_with_split_def bind_res_Inr_iff by auto
  from py_mul_by_float [OF i [unfolded split_constants]] a r obtain x where
    x: "as_float profit = Inr (Finite x)"
    and ra: "round64 (x * (7926335344172073 / 9007199254740992)) = Finite a"
    by auto
  from py_mul_by_float [OF c [unfolded split_constants]] b r x have
    rb: "round64 (x * (1080863910568919 / 9007199254740992)) = Finite b"
    by auto
  have s: "\<bar>a + b - x\<bar> \<le> \<bar>x\<bar> / 2 ^ 53 + 2 powi (- 1074)"
    by (rule split_sum_error [OF ra rb]) simp_all
  have xp: "\<bar>x - p\<bar> * 2 ^ 53 \<le> \<bar>p\<bar>"
    using as_float_value [OF x] p r by simp
  define t :: rat where "t = 2 powi (- 1074)"
  have s': "\<bar>a + b - x\<bar> \<le> \<bar>x\<bar> / 2 ^ 53 + t" using s by (simp only: t_def)
  have xp': "\<bar>x - p\<bar> \<le> \<bar>p\<bar> / 2 ^ 53" using xp by (simp add: field_simps)
  have "\<bar>p\<bar> / 2 ^ 53 \<le> \<bar>p\<bar>" by (simp add: field_simps)
  moreover have "\<bar>x\<bar> \<le> \<bar>x - p\<bar> + \<bar>p\<bar>" by simp
  ultimately have "\<bar>x\<bar> \<le> 2 * \<bar>p\<bar>" using xp' by linarith
  then have "\<bar>x\<bar> / 2 ^ 53 \<le> 2 * \<bar>p\<bar> / 2 ^ 53" by (rule divide_right_mono) simp
  moreover have "\<bar>a + b - p\<bar> \<le> \<bar>a + b - x\<bar> + \<bar>x - p\<bar>" by simp
  ultimately have "\<bar>a + b - p\<bar> \<le> 3 * \<bar>p\<bar> / 2 ^ 53 + t" using s' xp' by linarith
  moreover have "3 * \<bar>p\<bar> / 2 ^ 53 \<le> \<bar>p\<bar> / 2 ^ 51" by (simp add: field_simps)
  ultimately show ?thesis unfolding t_def by linarith
qed

theorem profit_split_sum_bound_witness:
  "calculate_roi_with_split (PyInt 200000)
     (PyFloat (Finite (8765942351790079 / 4294967296))) (PyInt 468000) (PyInt 12) =
     Inr \<lparr>total_profit = PyFloat (Finite (5896904198062079 / 4294967296)),
          investor_profit = PyFloat (Finite (2594637847147315 / 2147483648)),
          company_profit = PyFloat (Finite (1415257007534899 / 8589934592)),
          annual_roi = PyFloat (Finite (3181927132310001 / 17592186044416))\<rparr>
   \<and> \<bar>2594637847147315 / 2147483648 + 1415257007534899 / 8589934592
        - 5896904198062079 / 4294967296 :: rat\<bar>
       \<le> \<bar>5896904198062079 / 4294967296\<bar> / 2 ^ 51 + 2 powi (- 1074)"
proof -
  have h: "calculate_roi_with_split (PyInt 200000)
     (PyFloat (Finite (8765942351790079 / 4294967296))) (PyInt 468000) (PyInt 12) =
     Inr \<lparr>total_profit = PyFloat (Finite (5896904198062079 / 4294967296)),
          investor_profit = PyFloat (Finite (2594637847147315 / 2147483648)),
          company_profit = PyFloat (Finite (1415257007534899 / 8589934592)),
          annual_roi = PyFloat (Finite (3181927132310001 / 17592186044416))\<rparr>"
    by (simp add: calculate_roi_with_split_def py_eval)
  from profit_split_sum_bound [OF h, of "5896904198062079 / 4294967296"
      "2594637847147315 / 2147483648" "1415257007534899 / 8589934592"]
  have "\<bar>2594637847147315 / 2147483648 + 1415257007534899 / 8589934592
        - 5896904198062079 / 4294967296 :: rat\<bar>
       \<le> \<bar>5896904198062079 / 4294967296\<bar> / 2 ^ 51 + 2 powi (- 1074)"
    by simp
  with h show ?thesis by (rule conjI)
qed

text \<open>
  C3, as the specification states it, fails: at inputs that the application itself
  produces (property value 200000, 600 square feet of the luxury package, 70 percent market
  appreciation, the optimistic estimate, 12 months), the two profits add up, by
  Python's \<^verbatim>\<open>+\<close> as in exact arithmetic, to a number that is not the total profit.
\<close>

theorem profit_split_sum_counterexample:
  "calculate_roi_with_split (PyInt 200000)
     (PyFloat (Finite (8765942351790079 / 4294967296))) (PyInt 468000) (PyInt 12) =
     Inr \<lparr>total_profit = PyFloat (Finite (5896904198062079 / 4294967296)),
          investor_profit = PyFloat (Finite (2594637847147315 / 2147483648)),
          company_profit = PyFloat (Finite (1415257007534899 / 8589934592)),
          annual_roi = PyFloat (Finite (3181927132310001 / 17592186044416))\<rparr>
   \<and> py_add (PyFloat (Finite (2594637847147315 / 2147483648)))
         (PyFloat (Finite (1415257007534899 / 8589934592)))
       = Inr (PyFloat (Finite 1372980))
   \<and> PyFloat (Finite 1372980) \<noteq> PyFloat (Finite (5896904198062079 / 4294967296))
   \<and> (2594637847147315 / 2147483648 + 1415257007534899 / 8589934592 :: rat)
       \<noteq> 5896904198062079 / 4294967296"
  by (simp add: calculate_roi_with_split_def py_eval)

subsection \<open>Share investment: the effective annual return\<close>

lemma yearly_rate_eval:
  "py_mul (float_lit (5 / 1000)) (PyInt 12) = Inr (PyFloat (Finite (1080863910568919 / 18014398509481984)))"
  by (simp add: py_eval)

lemma effective_eval:
  "py_mul (PyFloat (Finite (1080863910568919 / 18014398509481984))) (PyInt 100) = Inr (PyFloat (Finite 6))"
  by (simp add: py_eval)

text \<open>
  C7. Whatever the total investment, the share amount and the holding period are,
  a result returned by \<open>calculate_share_investment\<close> has the field
  \<open>effective_annual_return\<close> equal to the float 6.0: the product \<^verbatim>\<open>0.005 * 12 * 100\<close>
  is exactly 6 in double arithmetic.
\<close>

theorem effective_annual_return_constant:
  assumes "calculate_share_investment total_investment share_amount holding_period = Inr r"
  shows "effective_annual_return r = PyFloat (Finite 6)"
  using assms
  unfolding calculate_share_investment_def Let_def bind_res_Inr_iff yearly_rate_eval
  by (auto simp: effective_eval simp del: py_mul.simps)

theorem effective_annual_return_constant_witness:
  "calculate_share_investment (PyInt 1570000) (PyInt 1570000) (PyInt 12) =
     Inr \<lparr>share_percentage = PyFloat (Finite 100), monthly_returns = PyFloat (Finite 7850),
          total_returns = PyFloat (Finite 94200), effective_annual_return = PyFloat (Finite 6)\<rparr>
   \<and> effective_annual_return
         \<lparr>share_percentage = PyFloat (Finite 100), monthly_returns = PyFloat (Finite 7850),
          total_returns = PyFloat (Finite 94200), effective_annual_return = PyFloat (Finite 6)\<rparr>
       = PyFloat (Finite 6)"
proof -
  have h: "calculate_share_investment (PyInt 1570000) (PyInt 1570000) (PyInt 12) =
     Inr \<lparr>share_percentage = PyFloat (Finite 100), monthly_returns = PyFloat (Finite 7850),
          total_returns = PyFloat (Finite 94200), effective_annual_return = PyFloat (Finite 6)\<rparr>"
    by (simp add: calculate_share_investment_def py_eval)
  show ?thesis using h effective_annual_return_constant [OF h] by simp
qed

subsection \<open>The monthly projection\<close>

lemma linspace_step_finite:
  assumes range: "\<bar>b - a\<bar> \<le> 2 ^ 1022" and n: "1 \<le> (k::int)"
  shows "\<exists>\<delta>. round64 (b - a) = Finite \<delta>
           \<and> (\<exists>s. ddiv (Finite \<delta>) (round64 (of_int k)) = Finite s)"
proof -
  define M :: rat where "M = 2 ^ 1022"
  have M: "2 \<le> M" "(2::rat) ^ 1024 - 2 ^ 970 = 4 * M - M / 2 ^ 52" by (simp_all add: M_def)
  have x: "\<bar>b - a\<bar> \<le> M" using range by (simp add: M_def)
  then have "\<bar>b - a\<bar> < 4 * M - M / 2 ^ 52" using M(1) by simp
  then have "\<bar>b - a\<bar> < 2 ^ 1024 - 2 ^ 970" by (simp only: M(2))
  from round64_finite [OF this] obtain \<delta> where d: "round64 (b - a) = Finite \<delta>" ..
  have "\<bar>\<delta> - (b - a)\<bar> \<le> \<bar>b - a\<bar> / 2 ^ 53 + 2 powi (- 1075)"
    by (rule round64_gen_error [OF d])
  moreover have "(2::rat) powi (- 1075) \<le> 1" by (simp add: power_int_minus_divide)
  moreover have "\<bar>b - a\<bar> / 2 ^ 53 \<le> M / 2 ^ 53" using x by (simp add: divide_right_mono)
  moreover have "\<bar>\<delta>\<bar> \<le> \<bar>\<delta> - (b - a)\<bar> + \<bar>b - a\<bar>" by simp
  ultimately have db: "\<bar>\<delta>\<bar> \<le> M + M / 2 ^ 53 + 1" using x by linarith
  have "\<exists>s. ddiv (Finite \<delta>) (round64 (of_int k)) = Finite s"
  proof (cases "round64 (of_int k)")
    case (Finite d)
    have "(1::rat) \<le> of_int k" using n by simp
    from round64_ge_half [OF Finite this] have h: "1 / 2 \<le> d" .
    then have "\<bar>\<delta>\<bar> / d \<le> \<bar>\<delta>\<bar> / (1 / 2)"
      by (intro divide_left_mono) simp_all
    with h have "\<bar>\<delta> / d\<bar> \<le> \<bar>\<delta>\<bar> * 2" by (simp add: abs_divide)
    then have "\<bar>\<delta> / d\<bar> < 4 * M - M / 2 ^ 52" using db M(1) by simp
    then have "\<bar>\<delta> / d\<bar> < 2 ^ 1024 - 2 ^ 970" by (simp only: M(2))
    from round64_finite [OF this] show ?thesis using Finite h by auto
  qed simp_all
  with d show ?thesis by blast
qed

text \<open>
  The points of \<^verbatim>\<open>linspace\<close> against the exact evenly spaced points. Counts below
  \<open>2\<^sup>5\<^sup>3\<close> are doubles, so the index and the divisor are exact; each of the at most
  four roundings on the way to a point adds a relative error of \<open>2\<^sup>-\<^sup>5\<^sup>3\<close> or, among
  subnormal numbers, an absolute error of \<open>2\<^sup>-\<^sup>1\<^sup>0\<^sup>7\<^sup>5\<close>.
\<close>

lemma round64_int_exact:
  assumes "0 \<le> i" and "i < 2 ^ 53"
  shows "round64 (of_int i) = Finite (of_int i)"
proof (cases "i = 0")
  case True
  then show ?thesis by simp
next
  case False
  define q :: rat where "q = of_int i"
  define e where "e = ilog2 q"
  from False assms(1) have i1: "1 \<le> i" by simp
  then have q1: "1 \<le> q" by (simp add: q_def)
  then have q0: "0 < q" by linarith
  have lo: "2 powi e \<le> q" unfolding e_def by (rule ilog2_lower [OF q0])
  have up: "q < 2 powi (e + 1)" unfolding e_def by (rule ilog2_upper [OF q0])
  have "(of_int i :: rat) < of_int (2 ^ 53)" using assms(2) by (simp only: of_int_less_iff)
  then have "q < 2 powi 53" by (simp add: q_def)
  with lo have "(2::rat) powi e < 2 powi 53" by linarith
  then have "e < 53"
    by (metis not_less power_int_increasing one_le_numeral)
  then have e52: "e \<le> 52" by simp
  have "(2::rat) powi 0 < 2 powi (e + 1)" using q1 up by simp
  then have "0 < e + 1"
    by (metis not_less power_int_increasing one_le_numeral)
  then have e0: "0 \<le> e" by simp
  define m where "m = i * 2 ^ nat (52 - e)"
  have pw: "(2::rat) ^ nat (52 - e) * 2 powi (e - 52) = 1"
  proof -
    have "(2::rat) ^ nat (52 - e) = 2 powi (52 - e)" using e52 by (simp add: power_int_nonneg_exp)
    moreover have "(2::rat) powi (52 - e) * 2 powi (e - 52) = 2 powi ((52 - e) + (e - 52))"
      by (rule power_int_add [symmetric]) simp
    ultimately show ?thesis by simp
  qed
  have r: "q = of_int m * 2 powi (e - 52)"
  proof -
    have "of_int m * 2 powi (e - 52) = q * ((2::rat) ^ nat (52 - e) * 2 powi (e - 52))"
      by (simp add: m_def q_def)
    then show ?thesis by (simp only: pw mult_1_right)
  qed
  have "round64 q = Finite q"
  proof (rule round64_near [where e = e and m = m and k = "e - 52"])
    show "2 powi e \<le> \<bar>q\<bar>" using lo q0 by simp
    show "\<bar>q\<bar> < 2 powi (e + 1)" using up q0 by simp
    show "e - 52 = max e (- 1022) - 52" using e0 by simp
    show "q = of_int m * 2 powi (e - 52)" by (rule r)
    show "\<bar>q - q\<bar> * 2 < 2 powi (e - 52)" by simp
    have "q < 2 ^ 53" using \<open>q < 2 powi 53\<close> by simp
    also have "(2::rat) ^ 53 < 2 ^ 1024" by simp
    finally show "\<bar>q\<bar> < 2 ^ 1024" using q0 by simp
  qed
  then show ?thesis by (simp add: q_def)
qed

lemma round64_to_zero:
  assumes "round64 q = Finite 0"
  shows "\<bar>q\<bar> \<le> 2 powi (- 1074)"
proof (cases "q = 0")
  case True
  then show ?thesis by simp
next
  case False
  from round64_abs_error [OF assms] have "\<bar>q\<bar> * 2 \<le> ulp_of q" by simp
  moreover have "ulp_of q \<le> \<bar>q\<bar> / 2 ^ 52 + 2 powi (- 1074)" by (rule ulp_of_general [OF False])
  moreover have "\<bar>q\<bar> / 2 ^ 52 \<le> \<bar>q\<bar>" by (simp add: field_simps)
  ultimately show ?thesis by linarith
qed

lemma round64_step:
  assumes "\<bar>q\<bar> < 2 ^ 1024 - 2 ^ 970"
  shows "\<exists>r. round64 q = Finite r \<and> \<bar>r - q\<bar> \<le> \<bar>q\<bar> / 9007199254740992 + 2 powi (- 1075)
           \<and> \<bar>r\<bar> \<le> \<bar>q\<bar> + \<bar>q\<bar> / 9007199254740992 + 2 powi (- 1075)"
proof -
  from round64_finite [OF assms] obtain r where r: "round64 q = Finite r" ..
  have "\<bar>r - q\<bar> \<le> \<bar>q\<bar> / 2 ^ 53 + 2 powi (- 1075)" by (rule round64_gen_error [OF r])
  then have e: "\<bar>r - q\<bar> \<le> \<bar>q\<bar> / 9007199254740992 + 2 powi (- 1075)" by simp
  have "\<bar>r\<bar> \<le> \<bar>r - q\<bar> + \<bar>q\<bar>" by simp
  with e have "\<bar>r\<bar> \<le> \<bar>q\<bar> + \<bar>q\<bar> / 9007199254740992 + 2 powi (- 1075)" by linarith
  with r e show ?thesis by blast
qed

lemma abs_sum4:
  fixes x1 x2 x3 x4 :: rat
  assumes "\<bar>x1\<bar> \<le> c1" "\<bar>x2\<bar> \<le> c2" "\<bar>x3\<bar> \<le> c3" "\<bar>x4\<bar> \<le> c4"
  shows "\<bar>x1 + x2 + x3 + x4\<bar> \<le> c1 + c2 + c3 + c4"
proof -
  have "\<bar>x1 + x2 + x3 + x4\<bar> \<le> \<bar>x1 + x2 + x3\<bar> + \<bar>x4\<bar>" by (rule abs_triangle_ineq)
  also have "\<bar>x1 + x2 + x3\<bar> \<le> \<bar>x1 + x2\<bar> + \<bar>x3\<bar>" by (rule abs_triangle_ineq)
  also have "\<bar>x1 + x2\<bar> \<le> \<bar>x1\<bar> + \<bar>x2\<bar>" by (rule abs_triangle_ineq)
  finally have "\<bar>x1 + x2 + x3 + x4\<bar> \<le> \<bar>x1\<bar> + \<bar>x2\<bar> + \<bar>x3\<bar> + \<bar>x4\<bar>" by simp
  with assms show ?thesis by linarith
qed

lemma abs_split:
  fixes x y :: rat
  shows "\<bar>x\<bar> \<le> \<bar>x - y\<bar> + \<bar>y\<bar>"
  using abs_triangle_ineq [of "x - y" y] by simp

lemma ratio_le:
  fixes I K x :: rat
  assumes "0 \<le> I" "I \<le> K" "0 < K" "0 \<le> x"
  shows "I * x / K \<le> x"
proof -
  have "I * x \<le> K * x" using assms(2,4) by (rule mult_right_mono)
  then have "I * x \<le> x * K" by (simp only: mult.commute)
  then show ?thesis using assms(3) by (simp only: pos_divide_le_eq)
qed

lemma linspace_point_by_step:
  assumes Aa: "\<bar>a\<bar> \<le> 2 ^ 1022" and Dd: "\<bar>b - a\<bar> \<le> 2 ^ 1022"
    and K: "1 \<le> K" "K \<le> 2 ^ 53" and I: "0 \<le> I" "I \<le> K"
    and \<delta>: "round64 (b - a) = Finite \<delta>" and s: "round64 (\<delta> / K) = Finite s"
  shows "\<exists>p y. round64 (I * s) = Finite p \<and> round64 (p + a) = Finite y
           \<and> \<bar>y - (a + I * (b - a) / K)\<bar>
               \<le> (\<bar>a\<bar> + 16 * \<bar>b - a\<bar>) / 2 ^ 53 + (I + 4) * 2 powi (- 1074)"
proof -
  define e :: rat where "e = 2 powi (- 1075)"
  define w where "w = I * e"
  define H :: rat where "H = 2 ^ 1022"
  define A where "A = \<bar>a\<bar>"
  define D where "D = \<bar>b - a\<bar>"
  define dl where "dl = \<bar>\<delta>\<bar>"
  have e: "0 \<le> e" "e \<le> 1" "2 powi (- 1074) = 2 * e" "2 ^ 53 * e \<le> 1"
    by (simp_all add: e_def power_int_minus_divide)
  have H: "2 \<le> H" "(2::rat) ^ 1024 - 2 ^ 970 = 4 * H - H / 4503599627370496"
    by (simp_all add: H_def)
  have K0: "0 < K" using K(1) by linarith
  have "I * e \<le> 2 ^ 53 * e" using I(2) K(2) e(1) by (intro mult_right_mono) linarith+
  then have w: "0 \<le> w" "w \<le> 1" using I(1) e(1,4) by (simp_all add: w_def)
  have AH: "A \<le> H" using Aa unfolding A_def H_def .
  have DH: "D \<le> H" using Dd unfolding D_def H_def .
  have nn: "0 \<le> A" "0 \<le> D" "0 \<le> dl" by (simp_all add: A_def D_def dl_def)
  \<comment> \<open>the difference\<close>
  have n53: "(2::rat) ^ 53 = 9007199254740992" by simp
  have e0: "\<bar>\<delta> - (b - a)\<bar> \<le> D / 9007199254740992 + e"
    using round64_gen_error [OF \<delta>] unfolding n53 D_def e_def .
  have "dl \<le> \<bar>\<delta> - (b - a)\<bar> + D" unfolding dl_def D_def by (rule abs_split)
  with e0 have dl: "dl \<le> D + D / 9007199254740992 + e" by linarith
  \<comment> \<open>the step\<close>
  have q1: "\<bar>\<delta> / K\<bar> = dl / K" using K0 by (simp add: dl_def abs_divide)
  have e1: "\<bar>s - \<delta> / K\<bar> \<le> dl / K / 9007199254740992 + e"
    using round64_gen_error [OF s] unfolding n53 q1 e_def .
  have X: "I * dl / K \<le> dl" by (rule ratio_le [OF I K0 nn(3)])
  have "I * s - I * (\<delta> / K) = I * (s - \<delta> / K)" by (rule right_diff_distrib [symmetric])
  then have "\<bar>I * s - I * (\<delta> / K)\<bar> = I * \<bar>s - \<delta> / K\<bar>"
    using I(1) by (simp only: abs_mult abs_of_nonneg)
  also have "\<dots> \<le> I * (dl / K / 9007199254740992 + e)" using e1 I(1) by (rule mult_left_mono)
  also have "\<dots> = I * dl / K / 9007199254740992 + w" by (simp add: w_def algebra_simps)
  also have "\<dots> \<le> dl / 9007199254740992 + w"
    using X by (intro add_right_mono divide_right_mono) simp_all
  finally have E1: "\<bar>I * s - I * (\<delta> / K)\<bar> \<le> dl / 9007199254740992 + w" .
  have "\<bar>I * (\<delta> / K)\<bar> = I * dl / K" using I(1) K0 by (simp add: abs_mult abs_divide dl_def)
  with X have X': "\<bar>I * (\<delta> / K)\<bar> \<le> dl" by simp
  have "\<bar>I * s\<bar> \<le> \<bar>I * s - I * (\<delta> / K)\<bar> + \<bar>I * (\<delta> / K)\<bar>" by (rule abs_split)
  with E1 X' have Is: "\<bar>I * s\<bar> \<le> dl + dl / 9007199254740992 + w" by linarith
  \<comment> \<open>the product\<close>
  have "\<bar>I * s\<bar> < 4 * H - H / 4503599627370496" using Is dl DH nn e w H(1) by linarith
  then have "\<bar>I * s\<bar> < 2 ^ 1024 - 2 ^ 970" by (simp only: H(2))
  from round64_step [OF this] obtain p where
    p: "round64 (I * s) = Finite p"
    and e2: "\<bar>p - I * s\<bar> \<le> \<bar>I * s\<bar> / 9007199254740992 + e"
    and pb: "\<bar>p\<bar> \<le> \<bar>I * s\<bar> + \<bar>I * s\<bar> / 9007199254740992 + e"
    unfolding e_def by blast
  \<comment> \<open>the sum\<close>
  have pa: "\<bar>p + a\<bar> \<le> \<bar>p\<bar> + A" unfolding A_def by (rule abs_triangle_ineq)
  have "\<bar>p + a\<bar> < 4 * H - H / 4503599627370496"
    using pa pb Is dl DH AH nn e w H(1) by linarith
  then have "\<bar>p + a\<bar> < 2 ^ 1024 - 2 ^ 970" by (simp only: H(2))
  from round64_step [OF this] obtain y where
    y: "round64 (p + a) = Finite y"
    and e3: "\<bar>y - (p + a)\<bar> \<le> \<bar>p + a\<bar> / 9007199254740992 + e"
    unfolding e_def by blast
  \<comment> \<open>the exact point\<close>
  have "\<bar>I * (\<delta> / K) - I * (b - a) / K\<bar> = I * \<bar>\<delta> - (b - a)\<bar> / K"
  proof -
    have "I * (\<delta> / K) - I * (b - a) / K = I * (\<delta> - (b - a)) / K"
      by (simp add: right_diff_distrib diff_divide_distrib)
    then show ?thesis using I(1) K0 by (simp only: abs_mult abs_divide abs_of_nonneg abs_of_pos)
  qed
  also have "\<dots> \<le> \<bar>\<delta> - (b - a)\<bar>" by (rule ratio_le [OF I K0]) simp
  finally have e4: "\<bar>I * (\<delta> / K) - I * (b - a) / K\<bar> \<le> D / 9007199254740992 + e"
    using e0 by linarith
  have split: "y - (a + I * (b - a) / K) =
      (y - (p + a)) + (p - I * s) + (I * s - I * (\<delta> / K)) + (I * (\<delta> / K) - I * (b - a) / K)"
    by simp
  have "\<bar>y - (a + I * (b - a) / K)\<bar>
      \<le> (\<bar>p + a\<bar> / 9007199254740992 + e) + (\<bar>I * s\<bar> / 9007199254740992 + e)
        + (dl / 9007199254740992 + w) + (D / 9007199254740992 + e)"
    unfolding split by (rule abs_sum4 [OF e3 e2 E1 e4])
  then have "\<bar>y - (a + I * (b - a) / K)\<bar>
      \<le> A / 9007199254740992 + D / 562949953421312 + 2 * w + 8 * e"
    using pa pb Is dl nn e(1) w(1) by linarith
  also have "\<dots> = (\<bar>a\<bar> + 16 * \<bar>b - a\<bar>) / 2 ^ 53 + (I + 4) * 2 powi (- 1074)"
    unfolding e(3) by (simp add: A_def D_def w_def algebra_simps)
  finally show ?thesis using p y by blast
qed

lemma linspace_point_by_ratio:
  assumes Aa: "\<bar>a\<bar> \<le> 2 ^ 1022" and Dd: "\<bar>b - a\<bar> \<le> 2 ^ 1022"
    and K: "1 \<le> K" "K \<le> 2 ^ 53" and I: "0 \<le> I" "I \<le> K"
    and \<delta>: "round64 (b - a) = Finite \<delta>" and s: "round64 (\<delta> / K) = Finite 0"
  shows "\<exists>r p y. round64 (I / K) = Finite r \<and> round64 (r * \<delta>) = Finite p
           \<and> round64 (p + a) = Finite y
           \<and> \<bar>y - (a + I * (b - a) / K)\<bar>
               \<le> (\<bar>a\<bar> + 16 * \<bar>b - a\<bar>) / 2 ^ 53 + (I + 4) * 2 powi (- 1074)"
proof -
  define e :: rat where "e = 2 powi (- 1075)"
  define w where "w = I * e"
  define H :: rat where "H = 2 ^ 1022"
  define A where "A = \<bar>a\<bar>"
  define D where "D = \<bar>b - a\<bar>"
  define dl where "dl = \<bar>\<delta>\<bar>"
  define c where "c = I / K"
  have e: "0 \<le> e" "e \<le> 1" "2 powi (- 1074) = 2 * e" "2 ^ 53 * e \<le> 1"
    by (simp_all add: e_def power_int_minus_divide)
  have H: "8 \<le> H" "(2::rat) ^ 1024 - 2 ^ 970 = 4 * H - H / 4503599627370496"
    by (simp_all add: H_def)
  have n53: "(2::rat) ^ 53 = 9007199254740992" by simp
  have K0: "0 < K" using K(1) by linarith
  have w: "0 \<le> w" using I(1) e(1) by (simp add: w_def)
  have AH: "A \<le> H" using Aa unfolding A_def H_def .
  have DH: "D \<le> H" using Dd unfolding D_def H_def .
  have nn: "0 \<le> A" "0 \<le> D" "0 \<le> dl" by (simp_all add: A_def D_def dl_def)
  have c: "0 \<le> c" "c \<le> 1" "\<bar>c\<bar> = c" using I K0 by (simp_all add: c_def)
  \<comment> \<open>the difference\<close>
  have e0: "\<bar>\<delta> - (b - a)\<bar> \<le> D / 9007199254740992 + e"
    using round64_gen_error [OF \<delta>] unfolding n53 D_def e_def .
  have "dl \<le> \<bar>\<delta> - (b - a)\<bar> + D" unfolding dl_def D_def by (rule abs_split)
  with e0 have dl: "dl \<le> D + D / 9007199254740992 + e" by linarith
  \<comment> \<open>the step rounds to zero, so the difference is tiny\<close>
  have "\<bar>\<delta> / K\<bar> = dl / K" using K0 by (simp add: dl_def abs_divide)
  with round64_to_zero [OF s] have "dl / K \<le> 2 * e" by (simp only: e(3))
  then have "dl \<le> 2 * e * K" using K0 by (simp only: pos_divide_le_eq)
  also have "2 * e * K \<le> 2 * e * 2 ^ 53" using K(2) e(1) by (intro mult_left_mono) simp_all
  also have "\<dots> = 2 * (2 ^ 53 * e)" by simp
  finally have dl2: "dl \<le> 2" using e(4) by linarith
  \<comment> \<open>the ratio\<close>
  have "\<bar>c\<bar> < 4 * H - H / 4503599627370496" using c H(1) by linarith
  then have "\<bar>c\<bar> < 2 ^ 1024 - 2 ^ 970" by (simp only: H(2))
  from round64_step [OF this] obtain r where
    r: "round64 c = Finite r"
    and e1': "\<bar>r - c\<bar> \<le> \<bar>c\<bar> / 9007199254740992 + e"
    and rb': "\<bar>r\<bar> \<le> \<bar>c\<bar> + \<bar>c\<bar> / 9007199254740992 + e"
    unfolding e_def by blast
  have e1: "\<bar>r - c\<bar> \<le> 1 / 9007199254740992 + e" using e1' c by linarith
  have rb: "\<bar>r\<bar> \<le> 3" using rb' c e(2) by linarith
  \<comment> \<open>the product\<close>
  have "\<bar>r * \<delta>\<bar> = \<bar>r\<bar> * dl" by (simp only: abs_mult dl_def)
  also have "\<dots> \<le> 3 * dl" using rb nn(3) by (rule mult_right_mono)
  finally have rd: "\<bar>r * \<delta>\<bar> \<le> dl + dl + dl" by simp
  have "r * \<delta> - c * \<delta> = (r - c) * \<delta>" by (rule left_diff_distrib [symmetric])
  then have "\<bar>r * \<delta> - c * \<delta>\<bar> = \<bar>r - c\<bar> * dl" by (simp only: abs_mult dl_def)
  also have "\<dots> \<le> (1 / 9007199254740992 + e) * dl" using e1 nn(3) by (rule mult_right_mono)
  also have "\<dots> = dl / 9007199254740992 + e * dl" by (simp add: algebra_simps)
  also have "e * dl \<le> e * 2" using dl2 e(1) by (rule mult_left_mono)
  finally have E1: "\<bar>r * \<delta> - c * \<delta>\<bar> \<le> dl / 9007199254740992 + 2 * e" by simp
  have "\<bar>r * \<delta>\<bar> < 4 * H - H / 4503599627370496" using rd dl2 H(1) by linarith
  then have "\<bar>r * \<delta>\<bar> < 2 ^ 1024 - 2 ^ 970" by (simp only: H(2))
  from round64_step [OF this] obtain p where
    p: "round64 (r * \<delta>) = Finite p"
    and e2: "\<bar>p - r * \<delta>\<bar> \<le> \<bar>r * \<delta>\<bar> / 9007199254740992 + e"
    and pb: "\<bar>p\<bar> \<le> \<bar>r * \<delta>\<bar> + \<bar>r * \<delta>\<bar> / 9007199254740992 + e"
    unfolding e_def by blast
  \<comment> \<open>the sum\<close>
  have pa: "\<bar>p + a\<bar> \<le> \<bar>p\<bar> + A" unfolding A_def by (rule abs_triangle_ineq)
  have "\<bar>p + a\<bar> < 4 * H - H / 4503599627370496"
    using pa pb rd dl2 AH nn e H(1) by linarith
  then have "\<bar>p + a\<bar> < 2 ^ 1024 - 2 ^ 970" by (simp only: H(2))
  from round64_step [OF this] obtain y where
    y: "round64 (p + a) = Finite y"
    and e3: "\<bar>y - (p + a)\<bar> \<le> \<bar>p + a\<bar> / 9007199254740992 + e"
    unfolding e_def by blast
  \<comment> \<open>the exact point\<close>
  have t: "I * (b - a) / K = c * (b - a)" by (simp add: c_def)
  have "c * \<delta> - c * (b - a) = c * (\<delta> - (b - a))" by (rule right_diff_distrib [symmetric])
  then have "\<bar>c * \<delta> - c * (b - a)\<bar> = c * \<bar>\<delta> - (b - a)\<bar>" by (simp only: abs_mult c(3))
  also have "\<dots> \<le> 1 * \<bar>\<delta> - (b - a)\<bar>" using c(2) by (rule mult_right_mono) simp
  also have "\<dots> = \<bar>\<delta> - (b - a)\<bar>" by simp
  also note e0
  finally have e4: "\<bar>c * \<delta> - c * (b - a)\<bar> \<le> D / 9007199254740992 + e" .
  have split: "y - (a + c * (b - a)) =
      (y - (p + a)) + (p - r * \<delta>) + (r * \<delta> - c * \<delta>) + (c * \<delta> - c * (b - a))"
    by simp
  have "\<bar>y - (a + c * (b - a))\<bar>
      \<le> (\<bar>p + a\<bar> / 9007199254740992 + e) + (\<bar>r * \<delta>\<bar> / 9007199254740992 + e)
        + (dl / 9007199254740992 + 2 * e) + (D / 9007199254740992 + e)"
    unfolding split by (rule abs_sum4 [OF e3 e2 E1 e4])
  then have "\<bar>y - (a + c * (b - a))\<bar>
      \<le> A / 9007199254740992 + D / 562949953421312 + 2 * w + 8 * e"
    using pa pb rd dl nn e(1) w by linarith
  also have "\<dots> = (\<bar>a\<bar> + 16 * \<bar>b - a\<bar>) / 2 ^ 53 + (I + 4) * 2 powi (- 1074)"
    unfolding e(3) by (simp add: A_def D_def w_def algebra_simps)
  finally have "\<bar>y - (a + I * (b - a) / K)\<bar>
      \<le> (\<bar>a\<bar> + 16 * \<bar>b - a\<bar>) / 2 ^ 53 + (I + 4) * 2 powi (- 1074)"
    by (simp only: t)
  with r p y show ?thesis unfolding c_def by blast
qed

lemma linspace_point_error:
  assumes Aa: "\<bar>a\<bar> \<le> 2 ^ 1022" and Dd: "\<bar>b - a\<bar> \<le> 2 ^ 1022"
    and k: "1 \<le> k" "k < 2 ^ 53" and i: "int i \<le> k"
    and \<delta>: "round64 (b - a) = Finite \<delta>"
  shows "\<exists>y. dadd (if ddiv (Finite \<delta>) (round64 (of_int k)) = Finite 0
                   then dmul (ddiv (round64 (of_nat i)) (round64 (of_int k))) (Finite \<delta>)
                   else dmul (round64 (of_nat i)) (ddiv (Finite \<delta>) (round64 (of_int k))))
               (Finite a) = Finite y
           \<and> \<bar>y - (a + of_nat i * (b - a) / of_int k)\<bar>
               \<le> (\<bar>a\<bar> + 16 * \<bar>b - a\<bar>) / 2 ^ 53 + (of_nat i + 4) * 2 powi (- 1074)"
proof -
  define K :: rat where "K = of_int k"
  define I :: rat where "I = of_nat i"
  have "k \<le> 2 ^ 53" using k(2) by simp
  then have "(of_int k :: rat) \<le> of_int (2 ^ 53)" by (simp only: of_int_le_iff)
  then have K2: "K \<le> 2 ^ 53" by (simp add: K_def)
  have K1: "1 \<le> K" using k(1) by (simp add: K_def)
  have I0: "0 \<le> I" by (simp add: I_def)
  have "(of_int (int i) :: rat) \<le> of_int k" using i by (simp only: of_int_le_iff)
  then have IK: "I \<le> K" by (simp add: I_def K_def)
  have dK: "round64 (of_int k) = Finite (of_int k)"
    using k by (intro round64_int_exact) simp_all
  have "round64 (of_int (int i)) = Finite (of_int (int i))"
    using i k by (intro round64_int_exact) simp_all
  then have dI: "round64 (of_nat i) = Finite (of_nat i)" by simp
  have K0: "K \<noteq> 0" using K1 by simp
  from linspace_step_finite [OF Dd k(1)] \<delta> obtain s where
    "ddiv (Finite \<delta>) (round64 (of_int k)) = Finite s" by auto
  then have st: "ddiv (Finite \<delta>) (Finite K) = Finite s" by (simp only: dK K_def)
  then have s: "round64 (\<delta> / K) = Finite s" using K0 by simp
  have IKd: "ddiv (Finite I) (Finite K) = round64 (I / K)" using K0 by simp
  have goal: "\<exists>y. dadd (if ddiv (Finite \<delta>) (Finite K) = Finite 0
                   then dmul (ddiv (Finite I) (Finite K)) (Finite \<delta>)
                   else dmul (Finite I) (ddiv (Finite \<delta>) (Finite K)))
               (Finite a) = Finite y
           \<and> \<bar>y - (a + I * (b - a) / K)\<bar>
               \<le> (\<bar>a\<bar> + 16 * \<bar>b - a\<bar>) / 2 ^ 53 + (I + 4) * 2 powi (- 1074)"
  proof (cases "s = 0")
    case True
    with s have "round64 (\<delta> / K) = Finite 0" by simp
    from linspace_point_by_ratio [OF Aa Dd K1 K2 I0 IK \<delta> this] obtain r p y where
      r: "round64 (I / K) = Finite r" and p: "round64 (r * \<delta>) = Finite p"
      and y: "round64 (p + a) = Finite y"
      and bound: "\<bar>y - (a + I * (b - a) / K)\<bar>
         \<le> (\<bar>a\<bar> + 16 * \<bar>b - a\<bar>) / 2 ^ 53 + (I + 4) * 2 powi (- 1074)"
      by blast
    have "dadd (dmul (ddiv (Finite I) (Finite K)) (Finite \<delta>)) (Finite a) = Finite y"
      by (simp only: IKd r dmul.simps p dadd.simps y)
    then show ?thesis unfolding st using True bound by auto
  next
    case False
    from linspace_point_by_step [OF Aa Dd K1 K2 I0 IK \<delta> s] obtain p y where
      p: "round64 (I * s) = Finite p" and y: "round64 (p + a) = Finite y"
      and bound: "\<bar>y - (a + I * (b - a) / K)\<bar>
         \<le> (\<bar>a\<bar> + 16 * \<bar>b - a\<bar>) / 2 ^ 53 + (I + 4) * 2 powi (- 1074)"
      by blast
    have "dadd (dmul (Finite I) (Finite s)) (Finite a) = Finite y"
      by (simp only: dmul.simps p dadd.simps y)
    then show ?thesis unfolding st using False bound by auto
  qed
  show ?thesis unfolding dK dI using goal [unfolded K_def I_def] .
qed

text \<open>
  C5, as it holds on the code. For \<open>months \<ge> 1\<close> and finite doubles \<open>a\<close> (the initial
  value) and \<open>b\<close> (the final value) with \<open>\<bar>b - a\<bar> \<le> 2\<^sup>1\<^sup>0\<^sup>2\<^sup>2\<close>,
  \<open>generate_monthly_projection\<close> returns exactly \<open>months\<close> doubles. The first is \<open>a\<close>. For
  \<open>months = 1\<close> the sequence is \<open>[a]\<close>; for \<open>months \<ge> 2\<close> the last element is \<open>b\<close>.
  Before the last position, the element at index \<open>i\<close> is, with every operation rounded
  to a double, \<open>i * step + a\<close> where \<open>step = (b - a) / (months - 1)\<close> if that step is
  not zero as a double, and \<open>(i / (months - 1)) * (b - a) + a\<close> if it is. The spacing
  is even up to this rounding error: for \<open>2 \<le> months \<le> 2\<^sup>5\<^sup>3\<close> and \<open>\<bar>a\<bar> \<le> 2\<^sup>1\<^sup>0\<^sup>2\<^sup>2\<close>,
  every element is a finite number \<open>y\<close> and differs from the exact evenly spaced
  point \<open>a + i * (b - a) / (months - 1)\<close> by at most
  \<open>(\<bar>a\<bar> + 16 * \<bar>b - a\<bar>) / 2\<^sup>5\<^sup>3 + (i + 4) * 2\<^sup>-\<^sup>1\<^sup>0\<^sup>7\<^sup>4\<close>. In particular three months
  from 100 to 200 give \<open>[100, 150, 200]\<close>.
\<close>

theorem monthly_projection_shape:
  assumes a: "as_float initial_value = Inr (Finite a)" and ra: "round64 a = Finite a"
    and b: "as_float final_value = Inr (Finite b)"
    and n: "1 \<le> months" and range: "\<bar>b - a\<bar> \<le> 2 ^ 1022"
  shows "(\<exists>ys. generate_monthly_projection initial_value final_value (PyInt months) = Inr ys
     \<and> length ys = nat months
     \<and> ys ! 0 = Finite a
     \<and> (months = 1 \<longrightarrow> ys = [Finite a])
     \<and> (2 \<le> months \<longrightarrow> last ys = Finite b)
     \<and> (\<forall>i. i < nat months - 1 \<longrightarrow>
          ys ! i =
            (let d = round64 (of_int (months - 1));
                 delta = round64 (b - a);
                 step = ddiv delta d
             in dadd (if step = Finite 0 then dmul (ddiv (round64 (of_nat i)) d) delta
                      else dmul (round64 (of_nat i)) step)
                  (Finite a)))
     \<and> (2 \<le> months \<and> months \<le> 2 ^ 53 \<and> \<bar>a\<bar> \<le> 2 ^ 1022 \<longrightarrow>
          (\<forall>i. i < nat months \<longrightarrow>
             (\<exists>y. ys ! i = Finite y
                \<and> \<bar>y - (a + of_nat i * (b - a) / of_int (months - 1))\<bar>
                    \<le> (\<bar>a\<bar> + 16 * \<bar>b - a\<bar>) / 2 ^ 53 + (of_nat i + 4) * 2 powi (- 1074)))))
   \<and> generate_monthly_projection (PyInt 100) (PyInt 200) (PyInt 3)
       = Inr [Finite 100, Finite 150, Finite 200]"
  (is "?shape \<and> ?example")
proof (rule conjI)
  show ?example
    by (simp add: generate_monthly_projection_def linspace_def arange_def upt_rec py_eval)
  show ?shape
  proof (cases "months = 1")
    case True
    have "\<bar>b - a\<bar> < 2 ^ 1024 - 2 ^ 970" using range by simp
    from round64_finite [OF this] obtain \<delta> where d: "round64 (b - a) = Finite \<delta>" ..
    have "generate_monthly_projection initial_value final_value (PyInt months) = Inr [Finite a]"
      using True a b d ra
      by (simp add: generate_monthly_projection_def linspace_def arange_def dsub_def)
    then show ?thesis using True by simp
  next
    case False
    with n have n2: "2 \<le> months" by simp
    define d where "d = round64 (of_int (months - 1))"
    define delta where "delta = round64 (b - a)"
    define step where "step = ddiv delta d"
    define point where "point =
      (\<lambda>v. dadd (if step = Finite 0 then dmul (ddiv v d) delta else dmul v step) (Finite a))"
    define Y where "Y = map point (arange (nat months))"
    have gen: "generate_monthly_projection initial_value final_value (PyInt months)
                 = Inr (Y[nat months - 1 := Finite b])"
      using n2 a b
      by (simp add: generate_monthly_projection_def linspace_def dsub_def Let_def
          Y_def point_def step_def delta_def d_def o_def)
    have len: "length Y = nat months" by (simp add: Y_def arange_def)
    have nth: "Y ! i = point (round64 (of_nat i))" if "i < nat months" for i
      using that by (simp add: Y_def arange_def)
    from linspace_step_finite [OF range, of "months - 1"] n2 obtain \<delta> s where
      \<delta>: "delta = Finite \<delta>" and s: "step = Finite s"
      unfolding delta_def step_def d_def by auto
    have "d \<noteq> Finite 0" unfolding d_def using n2 by (intro round64_count_nonzero) simp
    then have "ddiv (Finite 0) d = Finite 0" by (rule ddiv_zero_left) (simp add: d_def)
    then have p0: "point (Finite 0) = Finite a"
      by (simp add: point_def \<delta> s ra)
    have first: "(Y[nat months - 1 := Finite b]) ! 0 = Finite a"
      using n2 nth [of 0] p0 by simp
    have "Y \<noteq> []" using n2 len by auto
    then have last: "last (Y[nat months - 1 := Finite b]) = Finite b"
      using len by (simp add: last_list_update)
    have mid: "(Y[nat months - 1 := Finite b]) ! i = point (round64 (of_nat i))"
      if "i < nat months - 1" for i
      using that nth [of i] by simp
    have near: "\<exists>y. (Y[nat months - 1 := Finite b]) ! i = Finite y
        \<and> \<bar>y - (a + of_nat i * (b - a) / of_int (months - 1))\<bar>
            \<le> (\<bar>a\<bar> + 16 * \<bar>b - a\<bar>) / 2 ^ 53 + (of_nat i + 4) * 2 powi (- 1074)"
      if i: "i < nat months" and m: "months \<le> 2 ^ 53" and mag: "\<bar>a\<bar> \<le> 2 ^ 1022" for i
    proof (cases "i = nat months - 1")
      case True
      have el: "(Y[nat months - 1 := Finite b]) ! i = Finite b"
        using True i len by simp
      have "(of_nat i :: rat) = of_int (months - 1)" using True n2 by simp
      moreover have "(of_int (months - 1) :: rat) \<noteq> 0" using n2 by simp
      ultimately have "a + of_nat i * (b - a) / of_int (months - 1) = b" by simp
      moreover have "(0::rat) \<le> (\<bar>a\<bar> + 16 * \<bar>b - a\<bar>) / 2 ^ 53 + (of_nat i + 4) * 2 powi (- 1074)"
        by (intro add_nonneg_nonneg mult_nonneg_nonneg divide_nonneg_nonneg) simp_all
      ultimately show ?thesis using el by simp
    next
      case False
      with i have i': "i < nat months - 1" by simp
      have k1: "1 \<le> months - 1" using n2 by simp
      have k2: "months - 1 < 2 ^ 53" using m by simp
      have ik: "int i \<le> months - 1" using i' by simp
      have \<delta>': "round64 (b - a) = Finite \<delta>" using \<delta> by (simp only: delta_def)
      from linspace_point_error [OF mag range k1 k2 ik \<delta>']
      show ?thesis
        unfolding mid [OF i'] point_def step_def d_def \<delta> .
    qed
    show ?thesis
      unfolding gen
      using len first last mid near False
      by (simp add: point_def step_def delta_def d_def Let_def)
  qed
qed

theorem monthly_projection_shape_witness:
  "as_float (PyInt 100) = Inr (Finite 100) \<and> round64 100 = Finite 100
   \<and> as_float (PyInt 200) = Inr (Finite 200) \<and> (1::int) \<le> 3
   \<and> \<bar>200 - 100 :: rat\<bar> \<le> 2 ^ 1022
   \<and> (2::int) \<le> 3 \<and> (3::int) \<le> 2 ^ 53 \<and> \<bar>100 :: rat\<bar> \<le> 2 ^ 1022
   \<and> (\<exists>ys. generate_monthly_projection (PyInt 100) (PyInt 200) (PyInt 3) = Inr ys
         \<and> length ys = 3 \<and> ys ! 0 = Finite 100 \<and> last ys = Finite 200
         \<and> (\<exists>y. ys ! 1 = Finite y
              \<and> \<bar>y - (100 + 1 * (200 - 100) / 2)\<bar>
                  \<le> (\<bar>100\<bar> + 16 * \<bar>200 - 100\<bar>) / 2 ^ 53 + (1 + 4) * 2 powi (- 1074)))
   \<and> generate_monthly_projection (PyInt 100) (PyInt 200) (PyInt 3)
       = Inr [Finite 100, Finite 150, Finite 200]"
proof -
  have a: "as_float (PyInt 100) = Inr (Finite 100)" by (simp add: py_eval)
  have ra: "round64 100 = Finite 100" by (simp add: py_eval)
  have b: "as_float (PyInt 200) = Inr (Finite 200)" by (simp add: py_eval)
  have n: "(1::int) \<le> 3" by simp
  have range: "\<bar>200 - 100 :: rat\<bar> \<le> 2 ^ 1022" by simp
  have m: "(2::int) \<le> 3" "(3::int) \<le> 2 ^ 53" "\<bar>100 :: rat\<bar> \<le> 2 ^ 1022" by simp_all
  note inst = monthly_projection_shape [OF a ra b n range]
  from inst [THEN conjunct1] obtain ys where
    ys: "generate_monthly_projection (PyInt 100) (PyInt 200) (PyInt 3) = Inr ys"
    and len: "length ys = 3" and first: "ys ! 0 = Finite 100"
    and last: "2 \<le> (3::int) \<longrightarrow> last ys = Finite 200"
    and near: "2 \<le> (3::int) \<and> (3::int) \<le> 2 ^ 53 \<and> \<bar>100 :: rat\<bar> \<le> 2 ^ 1022 \<longrightarrow>
          (\<forall>i. i < nat 3 \<longrightarrow>
             (\<exists>y. ys ! i = Finite y
                \<and> \<bar>y - (100 + of_nat i * (200 - 100) / of_int (3 - 1))\<bar>
                    \<le> (\<bar>100\<bar> + 16 * \<bar>200 - 100\<bar>) / 2 ^ 53
                       + (of_nat i + 4) * 2 powi (- 1074)))"
    by auto
  from near m have "\<forall>i. i < nat 3 \<longrightarrow>
             (\<exists>y. ys ! i = Finite y
                \<and> \<bar>y - (100 + of_nat i * (200 - 100) / of_int (3 - 1))\<bar>
                    \<le> (\<bar>100\<bar> + 16 * \<bar>200 - 100\<bar>) / 2 ^ 53
                       + (of_nat i + 4) * 2 powi (- 1074))"
    by blast
  then have "1 < nat 3 \<longrightarrow> (\<exists>y. ys ! 1 = Finite y
                \<and> \<bar>y - (100 + of_nat 1 * (200 - 100) / of_int (3 - 1))\<bar>
                    \<le> (\<bar>100\<bar> + 16 * \<bar>200 - 100\<bar>) / 2 ^ 53
                       + (of_nat 1 + 4) * 2 powi (- 1074))"
    by (rule spec)
  then have one: "\<exists>y. ys ! 1 = Finite y
              \<and> \<bar>y - (100 + 1 * (200 - 100) / 2)\<bar>
                  \<le> (\<bar>100\<bar> + 16 * \<bar>200 - 100\<bar>) / 2 ^ 53 + (1 + 4) * 2 powi (- 1074)"
    by simp
  from last m(1) have "last ys = Finite 200" by blast
  with ys len first one
  have "\<exists>ys. generate_monthly_projection (PyInt 100) (PyInt 200) (PyInt 3) = Inr ys
         \<and> length ys = 3 \<and> ys ! 0 = Finite 100 \<and> last ys = Finite 200
         \<and> (\<exists>y. ys ! 1 = Finite y
              \<and> \<bar>y - (100 + 1 * (200 - 100) / 2)\<bar>
                  \<le> (\<bar>100\<bar> + 16 * \<bar>200 - 100\<bar>) / 2 ^ 53 + (1 + 4) * 2 powi (- 1074))"
    by blast
  with a ra b n range m inst [THEN conjunct2] show ?thesis by blast
qed

text \<open>
  C5, as the specification states it, fails at \<open>months = 1\<close>: the one element returned
  is the initial value, so the last element is not the final value. It also fails
  for the spacing: the four points from 0 to 1 are not equally far apart.
\<close>

theorem monthly_projection_counterexample:
  "generate_monthly_projection (PyInt 100) (PyInt 200) (PyInt 1) = Inr [Finite 100]
   \<and> last [Finite 100] \<noteq> Finite 200
   \<and> generate_monthly_projection (PyInt 0) (PyInt 1) (PyInt 4)
       = Inr [Finite 0, Finite (6004799503160661 / 18014398509481984),
              Finite (6004799503160661 / 9007199254740992), Finite 1]
   \<and> dsub (Finite (6004799503160661 / 9007199254740992))
         (Finite (6004799503160661 / 18014398509481984))
       = Finite (6004799503160661 / 18014398509481984)
   \<and> dsub (Finite 1) (Finite (6004799503160661 / 9007199254740992))
       = Finite (3002399751580331 / 9007199254740992)
   \<and> (6004799503160661 / 18014398509481984 :: rat) \<noteq> 3002399751580331 / 9007199254740992"
  by (simp add: generate_monthly_projection_def linspace_def arange_def upt_rec py_eval)

subsection \<open>Monthly projection with no month\<close>

text \<open>
  C10. With \<open>months = 0\<close>, \<open>generate_monthly_projection\<close> returns the empty sequence
  and raises nothing, for every initial and final value that is a float or an
  \<^verbatim>\<open>int\<close> that has a float (an \<^verbatim>\<open>int\<close> beyond the range of doubles cannot enter a
  NumPy float array at all).
\<close>

theorem projection_of_zero_months:
  assumes "as_float initial_value = Inr a" and "as_float final_value = Inr b"
  shows "generate_monthly_projection initial_value final_value (PyInt 0) = Inr []"
  using assms
  by (simp add: generate_monthly_projection_def linspace_def arange_def bind_res_def)

theorem projection_of_zero_months_witness:
  "as_float (PyInt 100) = Inr (Finite 100) \<and> as_float (PyInt 200) = Inr (Finite 200)
   \<and> generate_monthly_projection (PyInt 100) (PyInt 200) (PyInt 0) = Inr []"
proof -
  have a: "as_float (PyInt 100) = Inr (Finite 100)" by (simp add: py_eval)
  have b: "as_float (PyInt 200) = Inr (Finite 200)" by (simp add: py_eval)
  show ?thesis using a b projection_of_zero_months [OF a b] by simp
qed

end
